theory Spec2Isabelle
  imports Main
begin

section \<open>Values of a configuration document\<close>

text \<open>
  A Mapchete configuration is a YAML document or a Python dictionary. The functions of
  \<^verbatim>\<open>mapchete/config/__init__.py\<close> only distinguish dictionaries, strings, \<^verbatim>\<open>None\<close> and
  "anything else", so a value is one of: \<^verbatim>\<open>None\<close>, an integer, a string, an opaque object
  (an input reader, named by its object identity), a list or a dictionary. Dictionary keys
  are strings. A dictionary is the list of its items in iteration order (insertion order,
  as in Python 3.7 and later), with no key twice. Floats and booleans are not part of the
  model.
\<close>

datatype val =
    VNone
  | VInt int
  | VStr string
  | VObj nat
  | VList "val list"
  | VDict "(string \<times> val) list"

type_synonym pydict = "(string \<times> val) list"

text \<open>
  The exceptions the module raises itself (\<^verbatim>\<open>mapchete.errors\<close>), with the message up to its
  first format argument, and the built-in ones that escape from it.
\<close>

datatype error =
    MapcheteConfigError string
  | MapcheteProcessSyntaxError
  | MapcheteDriverError
  | ValueError
  | TypeError
  | KeyError
  | AttributeError

subsection \<open>Dictionary operations\<close>

text \<open>\<^verbatim>\<open>k in d\<close>.\<close>

definition has_key :: "('k \<times> 'v) list \<Rightarrow> 'k \<Rightarrow> bool" where
  "has_key d k = (k \<in> set (map fst d))"

text \<open>\<^verbatim>\<open>d[k] = v\<close>: an existing key keeps its place, a new key goes to the end.\<close>

fun dict_set :: "('k \<times> 'v) list \<Rightarrow> 'k \<Rightarrow> 'v \<Rightarrow> ('k \<times> 'v) list" where
  "dict_set [] k v = [(k, v)]"
| "dict_set ((k', v') # d) k v =
     (if k' = k then (k, v) # d else (k', v') # dict_set d k v)"

text \<open>\<^verbatim>\<open>d[k]\<close> is \<open>map_of d k\<close>, with \<open>None\<close> for the \<^verbatim>\<open>KeyError\<close>; this is \<^verbatim>\<open>d.get(k, default)\<close>.\<close>

definition dict_get :: "('k \<times> 'v) list \<Rightarrow> 'k \<Rightarrow> 'v \<Rightarrow> 'v" where
  "dict_get d k dflt = (case map_of d k of None \<Rightarrow> dflt | Some v \<Rightarrow> v)"

text \<open>\<^verbatim>\<open>d.update(other)\<close> for a dictionary \<^verbatim>\<open>other\<close>, and \<^verbatim>\<open>dict(items)\<close>.\<close>

definition dict_update :: "('k \<times> 'v) list \<Rightarrow> ('k \<times> 'v) list \<Rightarrow> ('k \<times> 'v) list" where
  "dict_update d other = fold (\<lambda>(k, v) acc. dict_set acc k v) other d"

definition py_dict :: "('k \<times> 'v) list \<Rightarrow> ('k \<times> 'v) list" where
  "py_dict items = dict_update [] items"

subsection \<open>Strings\<close>

text \<open>\<^verbatim>\<open>s.startswith(p)\<close>, \<^verbatim>\<open>s.strip(chars)\<close> and \<^verbatim>\<open>s.strip()\<close>.\<close>

definition startswith :: "string \<Rightarrow> string \<Rightarrow> bool" where
  "startswith s p = (take (length p) s = p)"

definition strip_chars :: "string \<Rightarrow> string \<Rightarrow> string" where
  "strip_chars s chars =
     rev (dropWhile (\<lambda>c. c \<in> set chars) (rev (dropWhile (\<lambda>c. c \<in> set chars) s)))"

text \<open>
  The characters below code point 256 for which Python 3's \<^verbatim>\<open>str.isspace\<close> holds: tab to
  carriage return, the four separators \<^verbatim>\<open>0x1c\<close> to \<^verbatim>\<open>0x1f\<close>, the space, \<^verbatim>\<open>0x85\<close> and \<^verbatim>\<open>0xa0\<close>.
\<close>

definition is_space :: "char \<Rightarrow> bool" where
  "is_space c = (let n = (of_char c :: nat)
                 in (9 \<le> n \<and> n \<le> 13) \<or> (28 \<le> n \<and> n \<le> 32) \<or> n = 133 \<or> n = 160)"

definition strip_ws :: "string \<Rightarrow> string" where
  "strip_ws s = rev (dropWhile is_space (rev (dropWhile is_space s)))"

subsection \<open>The built-in \<^verbatim>\<open>int\<close> on a string\<close>

text \<open>
  \<^verbatim>\<open>int(s)\<close> in base ten (Python 3): surrounding whitespace is dropped, one sign is allowed,
  then decimal digits follow, where single underscores may stand between two digits.
  \<^verbatim>\<open>None\<close> is the \<^verbatim>\<open>ValueError\<close>.
\<close>

definition is_digit :: "char \<Rightarrow> bool" where
  "is_digit c = (let n = (of_char c :: nat) in 48 \<le> n \<and> n \<le> 57)"

definition digit_val :: "char \<Rightarrow> nat" where
  "digit_val c = (of_char c :: nat) - 48"

fun int_digits :: "nat \<Rightarrow> string \<Rightarrow> nat option" where
  "int_digits acc [] = Some acc"
| "int_digits acc (c # cs) =
     (if is_digit c then int_digits (10 * acc + digit_val c) cs
      else if c = CHR ''_'' \<and> cs \<noteq> [] \<and> is_digit (hd cs) then int_digits acc cs
      else None)"

definition py_nat :: "string \<Rightarrow> nat option" where
  "py_nat s = (case s of [] \<Rightarrow> None
               | c # cs \<Rightarrow> if is_digit c then int_digits 0 s else None)"

definition py_int :: "string \<Rightarrow> int option" where
  "py_int s =
     (case strip_ws s of
        [] \<Rightarrow> None
      | c # cs \<Rightarrow>
          if c = CHR ''-'' then map_option (\<lambda>n. - int n) (py_nat cs)
          else if c = CHR ''+'' then map_option int (py_nat cs)
          else map_option int (py_nat (c # cs)))"

section \<open>Zoom level filtering\<close>

text \<open>
  \<^verbatim>\<open>_strip_zoom(input_string, strip_string)\<close>: the zoom level as an integer, or the
  configuration error.
\<close>

definition strip_zoom :: "string \<Rightarrow> string \<Rightarrow> error + int" where
  "strip_zoom input_string strip_string =
     (case py_int (strip_chars input_string strip_string) of
        None \<Rightarrow> Inl (MapcheteConfigError ''zoom level could not be determined'')
      | Some n \<Rightarrow> Inr n)"

text \<open>
  The branch of \<^verbatim>\<open>_element_at_zoom\<close> for an element that is not a dictionary: a name that
  starts with \<^verbatim>\<open>zoom\<close> is a zoom level statement. A statement that does not hold falls
  through to the end of the function, which returns \<^verbatim>\<open>None\<close>.
\<close>

definition zoom_compare ::
  "string \<Rightarrow> string \<Rightarrow> (int \<Rightarrow> int \<Rightarrow> bool) \<Rightarrow> val \<Rightarrow> int \<Rightarrow> error + val" where
  "zoom_compare cleaned rel holds element zoom =
     (case strip_zoom cleaned rel of
        Inl e \<Rightarrow> Inl e
      | Inr n \<Rightarrow> if holds zoom n then Inr element else Inr VNone)"

definition zoom_statement :: "string \<Rightarrow> val \<Rightarrow> int \<Rightarrow> error + val" where
  "zoom_statement name element zoom =
     (if startswith name ''zoom'' then
        (let cleaned = strip_ws (strip_chars name ''zoom'') in
         if startswith cleaned ''='' then zoom_compare cleaned ''='' (=) element zoom
         else if startswith cleaned ''<='' then zoom_compare cleaned ''<='' (\<le>) element zoom
         else if startswith cleaned ''>='' then zoom_compare cleaned ''>='' (\<ge>) element zoom
         else if startswith cleaned ''<'' then zoom_compare cleaned ''<'' (<) element zoom
         else if startswith cleaned ''>'' then zoom_compare cleaned ''>'' (>) element zoom
         else Inr VNone)
      else Inr element)"

text \<open>
  \<^verbatim>\<open>_element_at_zoom(name, element, zoom)\<close>. A dictionary is looked at first, whatever its
  name: one with a \<^verbatim>\<open>format\<close> key is returned as it is, any other is filtered item by item
  (\<open>sub_elements_at_zoom\<close> is the loop, with \<^verbatim>\<open>out_elements\<close> as its last argument). Under the
  name \<^verbatim>\<open>input\<close> every item is kept, also one that became \<^verbatim>\<open>None\<close>.
\<close>

function element_at_zoom :: "string \<Rightarrow> val \<Rightarrow> int \<Rightarrow> error + val"
  and sub_elements_at_zoom :: "string \<Rightarrow> pydict \<Rightarrow> int \<Rightarrow> pydict \<Rightarrow> error + pydict"
where
  "element_at_zoom name element zoom =
     (case element of
        VDict d \<Rightarrow>
          if has_key d ''format'' then Inr element
          else (case sub_elements_at_zoom name d zoom [] of
                  Inl e \<Rightarrow> Inl e
                | Inr out_elements \<Rightarrow>
                    if length out_elements = 1 \<and> name \<noteq> ''input''
                    then Inr (snd (hd out_elements))
                    else if length out_elements = 0 then Inr VNone
                    else Inr (VDict out_elements))
      | _ \<Rightarrow> zoom_statement name element zoom)"
| "sub_elements_at_zoom name [] zoom out_elements = Inr out_elements"
| "sub_elements_at_zoom name ((sub_name, sub_element) # rest) zoom out_elements =
     (case element_at_zoom sub_name sub_element zoom of
        Inl e \<Rightarrow> Inl e
      | Inr out_element \<Rightarrow>
          if name = ''input'' then
            sub_elements_at_zoom name rest zoom (dict_set out_elements sub_name out_element)
          else if out_element \<noteq> VNone then
            sub_elements_at_zoom name rest zoom (dict_set out_elements sub_name out_element)
          else sub_elements_at_zoom name rest zoom out_elements)"
  by pat_completeness auto
termination
  by (relation "measure (\<lambda>x. case x of
          Inl (_, element, _) \<Rightarrow> size element
        | Inr (_, d, _, _) \<Rightarrow> size_list (size_prod (\<lambda>_. 0) size) d)")
     auto



section \<open>Content identity of an input declaration\<close>

subsection \<open>\<^verbatim>\<open>json.dumps\<close>\<close>

text \<open>
  \<^verbatim>\<open>json.dumps(x)\<close> with its default arguments: items are written in the iteration order of
  the dictionary (\<^verbatim>\<open>sort_keys\<close> is off), separated by \<^verbatim>\<open>", "\<close> and \<^verbatim>\<open>": "\<close>; every
  character outside the printable ASCII range is escaped (\<^verbatim>\<open>ensure_ascii\<close>). An object that
  is not serialisable raises \<^verbatim>\<open>TypeError\<close>, here \<open>None\<close>.
\<close>

definition digit_char :: "nat \<Rightarrow> char" where
  "digit_char n = char_of (48 + n)"

fun digits_of :: "nat \<Rightarrow> string" where
  "digits_of n = (if n < 10 then [digit_char n] else digits_of (n div 10) @ [digit_char (n mod 10)])"

definition str_of_int :: "int \<Rightarrow> string" where
  "str_of_int i = (if i < 0 then CHR ''-'' # digits_of (nat (- i)) else digits_of (nat i))"

definition hex_char :: "nat \<Rightarrow> char" where
  "hex_char n = (if n < 10 then char_of (48 + n) else char_of (87 + n))"

definition json_escape :: "char \<Rightarrow> string" where
  "json_escape c =
     (let n = (of_char c :: nat) in
      if c = CHR ''\"'' then [CHR 0x5C, CHR ''\"'']
      else if n = 0x5C then [CHR 0x5C, CHR 0x5C]
      else if n = 8 then [CHR 0x5C, CHR ''b'']
      else if n = 12 then [CHR 0x5C, CHR ''f'']
      else if n = 10 then [CHR 0x5C, CHR ''n'']
      else if n = 13 then [CHR 0x5C, CHR ''r'']
      else if n = 9 then [CHR 0x5C, CHR ''t'']
      else if n < 32 \<or> 126 < n then
        [CHR 0x5C, CHR ''u'', CHR ''0'', CHR ''0'', hex_char (n div 16), hex_char (n mod 16)]
      else [c])"

definition json_string :: "string \<Rightarrow> string" where
  "json_string s = CHR ''\"'' # concat (map json_escape s) @ [CHR ''\"'']"

fun json_dumps :: "val \<Rightarrow> string option"
  and json_elements :: "val list \<Rightarrow> string option"
  and json_items :: "(string \<times> val) list \<Rightarrow> string option"
where
  "json_dumps VNone = Some ''null''"
| "json_dumps (VInt i) = Some (str_of_int i)"
| "json_dumps (VStr s) = Some (json_string s)"
| "json_dumps (VObj _) = None"
| "json_dumps (VList xs) =
     (case json_elements xs of None \<Rightarrow> None | Some s \<Rightarrow> Some (''['' @ s @ '']''))"
| "json_dumps (VDict d) =
     (case json_items d of None \<Rightarrow> None | Some s \<Rightarrow> Some (''{'' @ s @ ''}''))"
| "json_elements [] = Some []"
| "json_elements (x # xs) =
     (case json_dumps x of
        None \<Rightarrow> None
      | Some s \<Rightarrow>
          (case json_elements xs of
             None \<Rightarrow> None
           | Some r \<Rightarrow> Some (if xs = [] then s else s @ '', '' @ r)))"
| "json_items [] = Some []"
| "json_items ((k, v) # d) =
     (case json_dumps v of
        None \<Rightarrow> None
      | Some s \<Rightarrow>
          (case json_items d of
             None \<Rightarrow> None
           | Some r \<Rightarrow>
               Some (if d = [] then json_string k @ '': '' @ s
                     else json_string k @ '': '' @ s @ '', '' @ r)))"

subsection \<open>\<^verbatim>\<open>get_hash\<close>\<close>

text \<open>
  \<^verbatim>\<open>get_hash(x)\<close>: the built-in \<^verbatim>\<open>hash\<close> of a string, or of the JSON text of a dictionary;
  for any other value the function ends without a \<^verbatim>\<open>return\<close>, so the result is \<^verbatim>\<open>None\<close>.
  The built-in \<^verbatim>\<open>hash\<close> on strings is the parameter \<open>h\<close>.
\<close>

definition get_hash :: "(string \<Rightarrow> int) \<Rightarrow> val \<Rightarrow> error + int option" where
  "get_hash h x =
     (case x of
        VStr s \<Rightarrow> Inr (Some (h s))
      | VDict d \<Rightarrow> (case json_dumps x of None \<Rightarrow> Inl TypeError | Some s \<Rightarrow> Inr (Some (h s)))
      | _ \<Rightarrow> Inr None)"

subsection \<open>Equality of values\<close>

text \<open>
  Python's \<^verbatim>\<open>==\<close> on values: two dictionaries are equal when they have the same number of
  items and every key of the first is bound to an equal value in the second, whatever
  the order of the items. Objects are equal when they are the same object.
\<close>

function py_eq :: "val \<Rightarrow> val \<Rightarrow> bool"
  and list_eq :: "val list \<Rightarrow> val list \<Rightarrow> bool"
  and items_eq :: "(string \<times> val) list \<Rightarrow> (string \<times> val) list \<Rightarrow> bool"
where
  "py_eq x y =
     (case x of
        VNone \<Rightarrow> y = VNone
      | VInt i \<Rightarrow> y = VInt i
      | VStr s \<Rightarrow> y = VStr s
      | VObj n \<Rightarrow> y = VObj n
      | VList xs \<Rightarrow> (case y of VList ys \<Rightarrow> list_eq xs ys | _ \<Rightarrow> False)
      | VDict d \<Rightarrow> (case y of VDict e \<Rightarrow> length d = length e \<and> items_eq d e | _ \<Rightarrow> False))"
| "list_eq [] ys = (ys = [])"
| "list_eq (x # xs) ys = (case ys of [] \<Rightarrow> False | y # ys' \<Rightarrow> py_eq x y \<and> list_eq xs ys')"
| "items_eq [] e = True"
| "items_eq ((k, v) # d) e =
     (case map_of e k of None \<Rightarrow> False | Some w \<Rightarrow> py_eq v w \<and> items_eq d e)"
  by pat_completeness auto
termination
  by (relation "measure (\<lambda>x. case x of
          Inl (x, _) \<Rightarrow> size x
        | Inr (Inl (xs, _)) \<Rightarrow> size_list size xs
        | Inr (Inr (d, _)) \<Rightarrow> size_list (size_prod (\<lambda>_. 0) size) d)")
     auto



text \<open>
  An injective coding of strings as integers, to stand for the built-in \<^verbatim>\<open>hash\<close> where a
  concrete hash function is needed: it gives different strings different identities,
  which the built-in function does up to collisions of its 64 bits.
\<close>

definition string_code :: "string \<Rightarrow> int" where
  "string_code s = fold (\<lambda>c a. 256 * a + int (of_char c) + 1) s 0"

section \<open>Flattening and unflattening the input tree\<close>

text \<open>\<^verbatim>\<open>key.split("/")\<close> and \<^verbatim>\<open>"/".join(path)\<close>.\<close>

fun split_slash :: "string \<Rightarrow> string list" where
  "split_slash [] = [[]]"
| "split_slash (c # cs) =
     (if c = CHR ''/'' then [] # split_slash cs
      else (case split_slash cs of [] \<Rightarrow> [[c]] | w # ws \<Rightarrow> (c # w) # ws))"

fun join_slash :: "string list \<Rightarrow> string" where
  "join_slash [] = []"
| "join_slash [x] = x"
| "join_slash (x # y # ys) = x @ ''/'' @ join_slash (y # ys)"

text \<open>
  \<^verbatim>\<open>_flatten_tree(tree, old_path=None)\<close>: the list of (path, value) pairs of the tree, depth
  first. A dictionary without a \<^verbatim>\<open>format\<close> key is flattened further, anything else is the
  value at its path. The test \<^verbatim>\<open>if old_path\<close> is false for \<^verbatim>\<open>None\<close> and for the empty string.
\<close>

function flatten_tree :: "pydict \<Rightarrow> string option \<Rightarrow> (string \<times> val) list" where
  "flatten_tree [] old_path = []"
| "flatten_tree ((key, value) # tree) old_path =
     (let new_path = (case old_path of
                        None \<Rightarrow> key
                      | Some p \<Rightarrow> if p \<noteq> [] then join_slash [p, key] else key)
      in (case value of
            VDict d \<Rightarrow>
              if \<not> has_key d ''format'' then flatten_tree d (Some new_path)
              else [(new_path, value)]
          | _ \<Rightarrow> [(new_path, value)])
         @ flatten_tree tree old_path)"
  by pat_completeness auto
termination
  by (relation "measure (\<lambda>(tree, _). size_list (size_prod (\<lambda>_. 0) size) tree)") auto

text \<open>
  \<^verbatim>\<open>d.update(other)\<close> where \<^verbatim>\<open>other\<close> is any value. A dictionary is merged in; \<^verbatim>\<open>None\<close>, an
  integer and an object raise \<^verbatim>\<open>TypeError\<close>; the empty string and the empty list change
  nothing. A string of characters raises \<^verbatim>\<open>ValueError\<close>; so does, in this model, a list
  with elements (Python accepts a list of key-value pairs).
\<close>

definition update_with :: "pydict \<Rightarrow> val \<Rightarrow> error + pydict" where
  "update_with d other =
     (case other of
        VDict e \<Rightarrow> Inr (dict_update d e)
      | VStr s \<Rightarrow> if s = [] then Inr d else Inl ValueError
      | VList xs \<Rightarrow> if xs = [] then Inr d else Inl ValueError
      | _ \<Rightarrow> Inl TypeError)"

text \<open>
  The branch of \<^verbatim>\<open>_unflatten_tree\<close> for a path with more than one segment, once
  \<^verbatim>\<open>branch\<close> is there: a new first segment gets the branch as a whole; under an existing
  first segment the second segment is set, or, when it exists too, updated with
  \<^verbatim>\<open>dict.update\<close>, which replaces what the existing dictionary holds under the third segment.
\<close>

definition merge_branch :: "pydict \<Rightarrow> string list \<Rightarrow> pydict \<Rightarrow> error + pydict" where
  "merge_branch tree path branch =
     (case path of
        p0 # p1 # _ \<Rightarrow>
          if \<not> has_key tree p0 then Inr (dict_set tree p0 (VDict branch))
          else (case map_of tree p0 of
                  Some (VDict sub) \<Rightarrow>
                    if \<not> has_key sub p1 then
                      (case map_of branch p1 of
                         None \<Rightarrow> Inl KeyError
                       | Some b \<Rightarrow> Inr (dict_set tree p0 (VDict (dict_set sub p1 b))))
                    else
                      (case map_of sub p1 of
                         Some (VDict t) \<Rightarrow>
                           (case map_of branch p1 of
                              None \<Rightarrow> Inl KeyError
                            | Some b \<Rightarrow>
                                (case update_with t b of
                                   Inl e \<Rightarrow> Inl e
                                 | Inr t' \<Rightarrow>
                                     Inr (dict_set tree p0 (VDict (dict_set sub p1 (VDict t'))))))
                       | _ \<Rightarrow> Inl AttributeError)
                | _ \<Rightarrow> Inl TypeError)
      | _ \<Rightarrow> Inl ValueError)"

text \<open>
  \<^verbatim>\<open>_unflatten_tree(flat)\<close>; \<open>unflatten_into\<close> is its loop over the items of \<^verbatim>\<open>flat\<close>, with
  \<^verbatim>\<open>tree\<close> as the first argument. The recursive call of the source is on the dictionary
  with the one item \<^verbatim>\<open>{"/".join(path[1:]): value}\<close>. (\<^verbatim>\<open>split\<close> never returns an empty
  list, so the last case of \<open>merge_branch\<close> is not reached.)
\<close>

function unflatten_into :: "pydict \<Rightarrow> (string \<times> val) list \<Rightarrow> error + pydict" where
  "unflatten_into tree [] = Inr tree"
| "unflatten_into tree ((key, value) # flat) =
     (let path = split_slash key in
      if length path = 1 then unflatten_into (dict_set tree key value) flat
      else (case unflatten_into [] [(join_slash (tl path), value)] of
              Inl e \<Rightarrow> Inl e
            | Inr branch \<Rightarrow>
                (case merge_branch tree path branch of
                   Inl e \<Rightarrow> Inl e
                 | Inr tree' \<Rightarrow> unflatten_into tree' flat)))"
  by pat_completeness auto
termination
proof (relation "measure (\<lambda>(tree, flat). sum_list (map (\<lambda>(k, v). Suc (length k)) flat))")
  have join_split: "join_slash (split_slash s) = s" for s
  proof (induction s)
    case Nil
    show ?case by simp
  next
    case (Cons c s)
    then show ?case
      by (cases "split_slash s"; cases "tl (split_slash s)") auto
  qed
  have shorter: "length (join_slash (tl (split_slash s))) < length s"
    if "length (split_slash s) \<noteq> 1" for s
  proof (cases "split_slash s")
    case Nil
    with join_split [of s] that show ?thesis by (cases s) (auto split: if_splits list.splits)
  next
    case (Cons w ws)
    with that obtain x xs where "ws = x # xs" by (cases ws) auto
    with Cons have "join_slash (split_slash s) = w @ ''/'' @ join_slash (tl (split_slash s))"
      by simp
    with join_split [of s] have "length s = length w + 1 + length (join_slash (tl (split_slash s)))"
      by (metis length_append length_Cons list.size(3) One_nat_def add.commute plus_1_eq_Suc add.assoc)
    then show ?thesis by simp
  qed
  show "wf (measure (\<lambda>(tree, flat). sum_list (map (\<lambda>(k, v). Suc (length k)) flat)))" by simp
  show "\<And>tree key value flat x.
       x = split_slash key \<Longrightarrow> length x = 1 \<Longrightarrow>
       ((dict_set tree key value, flat), tree, (key, value) # flat)
       \<in> measure (\<lambda>(tree, flat). sum_list (map (\<lambda>(k, v). Suc (length k)) flat))"
    by simp
  show "\<And>tree key value flat x.
       x = split_slash key \<Longrightarrow> length x \<noteq> 1 \<Longrightarrow>
       (([], [(join_slash (tl x), value)]), tree, (key, value) # flat)
       \<in> measure (\<lambda>(tree, flat). sum_list (map (\<lambda>(k, v). Suc (length k)) flat))"
    by (simp add: shorter trans_less_add1)
  show "\<And>tree key value flat x xa y ya.
       x = split_slash key \<Longrightarrow> length x \<noteq> 1 \<Longrightarrow>
       ((ya, flat), tree, (key, value) # flat)
       \<in> measure (\<lambda>(tree, flat). sum_list (map (\<lambda>(k, v). Suc (length k)) flat))"
    by simp
qed

definition unflatten_tree :: "(string \<times> val) list \<Rightarrow> error + pydict" where
  "unflatten_tree flat = unflatten_into [] flat"

section \<open>The configuration object\<close>

subsection \<open>Results, subscripts, types\<close>

text \<open>Sequencing of steps that may raise: the first exception ends the computation.\<close>

definition and_then :: "error + 'a \<Rightarrow> ('a \<Rightarrow> error + 'b) \<Rightarrow> error + 'b" where
  "and_then m f = (case m of Inl e \<Rightarrow> Inl e | Inr x \<Rightarrow> f x)"

text \<open>
  \<^verbatim>\<open>try: ... except Exception as e: raise MapcheteConfigError(e)\<close>. The message of the new
  exception is the text of the old one, for which the name of a built-in exception stands.
\<close>

definition error_text :: "error \<Rightarrow> string" where
  "error_text e =
     (case e of
        MapcheteConfigError s \<Rightarrow> s
      | MapcheteProcessSyntaxError \<Rightarrow> ''MapcheteProcessSyntaxError''
      | MapcheteDriverError \<Rightarrow> ''MapcheteDriverError''
      | ValueError \<Rightarrow> ''ValueError''
      | TypeError \<Rightarrow> ''TypeError''
      | KeyError \<Rightarrow> ''KeyError''
      | AttributeError \<Rightarrow> ''AttributeError'')"

definition wrap_config_error :: "error + 'a \<Rightarrow> error + 'a" where
  "wrap_config_error m =
     (case m of Inl e \<Rightarrow> Inl (MapcheteConfigError (error_text e)) | Inr x \<Rightarrow> Inr x)"

text \<open>\<^verbatim>\<open>x[k]\<close> for a string \<^verbatim>\<open>k\<close>: only a dictionary can be subscripted with a string.\<close>

definition subscript :: "val \<Rightarrow> string \<Rightarrow> error + val" where
  "subscript x k =
     (case x of
        VDict d \<Rightarrow> (case map_of d k of None \<Rightarrow> Inl KeyError | Some v \<Rightarrow> Inr v)
      | _ \<Rightarrow> Inl TypeError)"

datatype pytype = TStr | TInt | TDict | TList | TNoneType

definition isinstance :: "val \<Rightarrow> pytype list \<Rightarrow> bool" where
  "isinstance v ts =
     (case v of
        VNone \<Rightarrow> TNoneType \<in> set ts
      | VInt _ \<Rightarrow> TInt \<in> set ts
      | VStr _ \<Rightarrow> TStr \<in> set ts
      | VObj _ \<Rightarrow> False
      | VList _ \<Rightarrow> TList \<in> set ts
      | VDict _ \<Rightarrow> TDict \<in> set ts)"

text \<open>
  \<^verbatim>\<open>validate_values(config, values)\<close>: \<^verbatim>\<open>True\<close>, or \<^verbatim>\<open>TypeError\<close> for a configuration that
  is not a dictionary or a value of the wrong type, \<^verbatim>\<open>ValueError\<close> for a missing value.
\<close>

fun validate_items :: "pydict \<Rightarrow> (string \<times> pytype list) list \<Rightarrow> error + bool" where
  "validate_items config [] = Inr True"
| "validate_items config ((value, vtype) # values) =
     (case map_of config value of
        None \<Rightarrow> Inl ValueError
      | Some v \<Rightarrow> if \<not> isinstance v vtype then Inl TypeError
                  else validate_items config values)"

definition validate_values :: "val \<Rightarrow> (string \<times> pytype list) list \<Rightarrow> error + bool" where
  "validate_values config values =
     (case config of VDict d \<Rightarrow> validate_items d values | _ \<Rightarrow> Inl TypeError)"

text \<open>
  The comparison \<^verbatim>\<open>a > b\<close>: integers by value, strings by code points; \<open>None\<close> is the
  \<^verbatim>\<open>TypeError\<close> of Python 3 for values that have no order. (Two lists, which Python
  compares item by item, are not modelled and count as unordered.)
\<close>

fun str_less :: "string \<Rightarrow> string \<Rightarrow> bool" where
  "str_less [] [] = False"
| "str_less [] (d # t) = True"
| "str_less (c # s) [] = False"
| "str_less (c # s) (d # t) =
     ((of_char c :: nat) < of_char d \<or> ((of_char c :: nat) = of_char d \<and> str_less s t))"

definition py_gt :: "val \<Rightarrow> val \<Rightarrow> bool option" where
  "py_gt a b =
     (case (a, b) of
        (VInt x, VInt y) \<Rightarrow> Some (x > y)
      | (VStr s, VStr t) \<Rightarrow> Some (str_less t s)
      | _ \<Rightarrow> None)"

subsection \<open>What the module takes from elsewhere\<close>

text \<open>
  A tile pyramid. Modelled from the spec: \<^verbatim>\<open>BufferedTilePyramid\<close> of \<^verbatim>\<open>mapchete.tile\<close> is not
  part of the sources at hand; the pyramid-geometry interface "constructs a tile pyramid
  from (grid type, metatiling, pixel buffer)" and exposes them again, so a pyramid is the
  record of the three values it was made from. Whether the constructor accepts them, and
  the bounds of the pyramid, are given by the environment.
\<close>

record pyramid =
  pyr_type :: val
  pyr_metatiling :: val
  pyr_pixelbuffer :: val

text \<open>
  The \<^verbatim>\<open>delimiters\<close> handed to every input reader, the arguments of \<^verbatim>\<open>load_input_reader\<close>,
  and the optional \<^verbatim>\<open>baselevels\<close>.
\<close>

record delimiters =
  dl_zoom :: "int list"
  dl_bounds :: "val list"
  dl_process_bounds :: "val list"

datatype input_source = PathSource string | AbstractSource pydict val

record reader_params =
  rp_source :: input_source
  rp_pyramid :: pyramid
  rp_pixelbuffer :: val
  rp_delimiters :: delimiters
  rp_readonly :: bool

record baselevels =
  bl_zooms :: "int list"
  bl_lower :: val
  bl_higher :: val
  bl_tile_pyramid :: pyramid

text \<open>
  The file system, the drivers of \<^verbatim>\<open>mapchete.formats\<close>, the built-in \<^verbatim>\<open>hash\<close> and the
  geometry operations of \<^verbatim>\<open>shapely\<close> are parameters. \<open>'g\<close> is the type of geometries.
  A function with a result in \<open>error + _\<close> may raise; \<open>pyramid_ok\<close>, \<open>py_compiles\<close> and
  \<open>load_input_reader\<close> tell whether the call returns.
\<close>

record 'g environment =
  file_ext :: "string \<Rightarrow> string"
  read_mapchete_file :: "string \<Rightarrow> error + val"
  dirname_realpath :: "string \<Rightarrow> string"
  path_join :: "string \<Rightarrow> string \<Rightarrow> string"
  normpath :: "string \<Rightarrow> string"
  isfile :: "string \<Rightarrow> bool"
  py_compiles :: "string \<Rightarrow> bool"
  pyramid_ok :: "val \<Rightarrow> val \<Rightarrow> val \<Rightarrow> bool"
  pyramid_bounds :: "pyramid \<Rightarrow> val list"
  available_output_formats :: "string list"
  load_output_writer :: "pydict \<Rightarrow> error + nat"
  is_valid_with_config :: "nat \<Rightarrow> pydict \<Rightarrow> error + bool"
  str_hash :: "string \<Rightarrow> int"
  load_input_reader :: "reader_params \<Rightarrow> bool"
  reader_bbox :: "reader_params \<Rightarrow> error + 'g"
  cascaded_union :: "'g list \<Rightarrow> 'g"
  intersection :: "'g \<Rightarrow> 'g \<Rightarrow> 'g"
  box :: "val list \<Rightarrow> 'g"
  buffer0 :: "'g \<Rightarrow> 'g"
  is_empty :: "'g \<Rightarrow> bool"
  geom_bounds :: "'g \<Rightarrow> val list"

subsection \<open>The object\<close>

text \<open>
  The attributes of a \<^verbatim>\<open>MapcheteConfig\<close>. \<open>raw\<close> is \<^verbatim>\<open>self._raw\<close>, \<open>params_per_zoom\<close> is
  \<^verbatim>\<open>self._params_at_zoom\<close>. The cached properties \<^verbatim>\<open>output\<close> and \<^verbatim>\<open>input\<close> have a cache
  that is empty until the first access. A reader object is the pair of its identity and
  the arguments it was loaded with; \<open>next_object\<close> is the identity of the next object to be
  made. The other cached properties (\<^verbatim>\<open>zoom_levels\<close>,
  \<^verbatim>\<open>init_zoom_levels\<close>, \<^verbatim>\<open>bounds\<close>, \<^verbatim>\<open>init_bounds\<close>, \<^verbatim>\<open>baselevels\<close>) read fields of \<open>raw\<close> that
  nothing writes after the first lines of \<^verbatim>\<open>__init__\<close>, so they are functions of the object.
  Dictionaries are values here: \<open>params_per_zoom\<close> holds copies of the parts of \<open>raw\<close>.
\<close>

record 'g config =
  raw :: pydict
  process_file :: string
  config_dir :: val
  process_pyramid :: pyramid
  output_pyramid :: pyramid
  mode :: val
  params_per_zoom :: "(int \<times> pydict) list"
  output_cache :: "nat option"
  input_cache :: "(int option \<times> nat \<times> reader_params) list option"
  next_object :: nat
  cache_area_at_zoom :: "(int \<times> 'g) list"
  cache_full_process_area :: "'g option"

definition RESERVED_PARAMETERS :: "string list" where
  "RESERVED_PARAMETERS =
     [''baselevels'', ''pyramid'', ''zoom_levels'', ''bounds'', ''process_file'',
      ''config_dir'', ''process_minzoom'', ''process_maxzoom'', ''process_zoom'',
      ''process_bounds'', ''metatiling'', ''pixelbuffer'']"

subsection \<open>Reading the document\<close>

text \<open>
  \<^verbatim>\<open>_config_to_dict(input_config)\<close>. \<^verbatim>\<open>os.path.splitext\<close> raises \<^verbatim>\<open>TypeError\<close> for a value that
  is neither a dictionary nor a string; a file whose YAML content is not a mapping has no
  \<^verbatim>\<open>update\<close>.
\<close>

definition config_to_dict :: "'g environment \<Rightarrow> val \<Rightarrow> error + pydict" where
  "config_to_dict env input_config =
     (case input_config of
        VDict d \<Rightarrow>
          if \<not> has_key d ''config_dir''
          then Inl (MapcheteConfigError ''config_dir parameter missing'')
          else Inr (dict_set d ''mapchete_file'' VNone)
      | VStr p \<Rightarrow>
          if file_ext env p = ''.mapchete'' then
            and_then (read_mapchete_file env p) (\<lambda>content.
              case content of
                VDict d \<Rightarrow>
                  Inr (dict_update d [(''config_dir'', VStr (dirname_realpath env p)),
                                      (''mapchete_file'', VStr p)])
              | _ \<Rightarrow> Inl AttributeError)
          else Inl (MapcheteConfigError
                      ''Configuration has to be a dictionary or a .mapchete file.'')
      | _ \<Rightarrow> Inl TypeError)"

text \<open>\<^verbatim>\<open>_map_to_new_config(config)\<close>: deprecated parameters are mapped to the new ones.\<close>

definition map_pyramid :: "pydict \<Rightarrow> error + pydict" where
  "map_pyramid config =
     (if \<not> has_key config ''pyramid'' then
        (case map_of config ''output'' of
           None \<Rightarrow> Inl (MapcheteConfigError ''output not provided'')
         | Some output \<Rightarrow>
             and_then (subscript output ''type'') (\<lambda>grid.
               Inr (dict_set config ''pyramid''
                      (VDict [(''grid'', grid),
                              (''metatiling'', dict_get config ''metatiling'' (VInt 1)),
                              (''pixelbuffer'', dict_get config ''pixelbuffer'' (VInt 0))]))))
      else Inr config)"

definition map_zoom_levels :: "pydict \<Rightarrow> error + pydict" where
  "map_zoom_levels config =
     (if \<not> has_key config ''zoom_levels'' then
        (case map_of config ''process_zoom'' of
           Some z \<Rightarrow> Inr (dict_set config ''zoom_levels'' z)
         | None \<Rightarrow>
             (case (map_of config ''process_minzoom'', map_of config ''process_maxzoom'') of
                (Some lo, Some hi) \<Rightarrow>
                  Inr (dict_set config ''zoom_levels'' (VDict [(''min'', lo), (''max'', hi)]))
              | _ \<Rightarrow> Inl (MapcheteConfigError ''process zoom levels not provided in config'')))
      else Inr config)"

definition map_bounds :: "pydict \<Rightarrow> pydict" where
  "map_bounds config =
     (if \<not> has_key config ''bounds'' then
        (case map_of config ''process_bounds'' of
           Some b \<Rightarrow> dict_set config ''bounds'' b
         | None \<Rightarrow> dict_set config ''bounds'' VNone)
      else config)"

definition map_input :: "pydict \<Rightarrow> error + pydict" where
  "map_input config =
     (if \<not> has_key config ''input'' then
        (case map_of config ''input_files'' of
           Some i \<Rightarrow> Inr (dict_set config ''input'' i)
         | None \<Rightarrow> Inl (MapcheteConfigError ''no 'input' found''))
      else if has_key config ''input_files'' then
        Inl (MapcheteConfigError
               '''input' and 'input_files' are not allowed at the same time'')
      else Inr config)"

definition map_to_new_config :: "pydict \<Rightarrow> error + pydict" where
  "map_to_new_config config =
     and_then (map_pyramid config) (\<lambda>c1.
     and_then (map_zoom_levels c1) (\<lambda>c2.
     map_input (map_bounds c2)))"

text \<open>
  \<^verbatim>\<open>_validate_process_file(config)\<close>: the absolute path of the process file, which must
  exist and compile. \<^verbatim>\<open>os.path.join\<close> raises \<^verbatim>\<open>TypeError\<close> for a part that is not a string.
\<close>

definition validate_process_file :: "'g environment \<Rightarrow> pydict \<Rightarrow> error + string" where
  "validate_process_file env config =
     (case (map_of config ''config_dir'', map_of config ''process_file'') of
        (Some (VStr dir), Some (VStr file)) \<Rightarrow>
          (let abs_path = path_join env dir file in
           if \<not> isfile env abs_path then Inl (MapcheteConfigError '' is not available'')
           else if \<not> py_compiles env abs_path then Inl MapcheteProcessSyntaxError
           else Inr abs_path)
      | (None, _) \<Rightarrow> Inl KeyError
      | (_, None) \<Rightarrow> Inl KeyError
      | _ \<Rightarrow> Inl TypeError)"

text \<open>\<^verbatim>\<open>_validate_bounds(bounds)\<close>. \<^verbatim>\<open>len\<close> is called on whatever is given.\<close>

definition validate_bounds :: "val \<Rightarrow> error + val list" where
  "validate_bounds b =
     (case b of
        VList xs \<Rightarrow>
          if length xs \<noteq> 4 \<or> (\<exists>i \<in> set xs. \<not> isinstance i [TInt])
          then Inl (MapcheteConfigError ''bounds not valid'') else Inr xs
      | VStr _ \<Rightarrow> Inl (MapcheteConfigError ''bounds not valid'')
      | VDict _ \<Rightarrow> Inl (MapcheteConfigError ''bounds not valid'')
      | _ \<Rightarrow> Inl TypeError)"

subsection \<open>Zoom levels and bounds\<close>

text \<open>
  The property \<^verbatim>\<open>zoom_levels\<close>: the process zoom levels as defined in the configuration.
  \<^verbatim>\<open>range(min, max + 1)\<close> is the list \<open>[min..max]\<close>, empty when \<open>max < min\<close>.
\<close>

definition zoom_levels :: "pydict \<Rightarrow> error + int list" where
  "zoom_levels raw_doc =
     (case map_of raw_doc ''zoom_levels'' of
        None \<Rightarrow> Inl KeyError
      | Some (VInt raw_zooms) \<Rightarrow> Inr [raw_zooms]
      | Some (VDict raw_zooms) \<Rightarrow>
          (case validate_values (VDict raw_zooms) [(''min'', [TInt]), (''max'', [TInt])] of
             Inl _ \<Rightarrow> Inl (MapcheteConfigError ''provide minimum and maximum zoom level'')
           | Inr _ \<Rightarrow>
               (case (map_of raw_zooms ''min'', map_of raw_zooms ''max'') of
                  (Some (VInt lo), Some (VInt hi)) \<Rightarrow>
                    if lo = hi then Inr [lo] else Inr [lo..hi]
                | _ \<Rightarrow> Inl (MapcheteConfigError ''provide minimum and maximum zoom level'')))
      | Some _ \<Rightarrow> Inl (MapcheteConfigError ''process zoom levels not properly set''))"

text \<open>
  The property \<^verbatim>\<open>init_zoom_levels\<close>: the zoom levels the process is initialised with. For
  a list, \<^verbatim>\<open>min(iz)\<close> is evaluated first and raises \<^verbatim>\<open>ValueError\<close> on the empty list. The
  documented argument is an integer or a list of integers; a list of two values that are
  not both integers counts as unordered (\<^verbatim>\<open>TypeError\<close>), a single value that is not an
  integer is in no list of zoom levels.
\<close>

definition ints_of :: "val list \<Rightarrow> int list option" where
  "ints_of xs =
     (if list_all (\<lambda>x. isinstance x [TInt]) xs
      then Some (map (\<lambda>x. case x of VInt i \<Rightarrow> i | _ \<Rightarrow> 0) xs) else None)"

definition subset_error :: error where
  "subset_error =
     MapcheteConfigError ''configuration init zooms levels must be subset of process zooms''"

definition init_zoom_levels :: "pydict \<Rightarrow> error + int list" where
  "init_zoom_levels raw_doc =
     (case map_of raw_doc ''init_zoom_levels'' of
        None \<Rightarrow> Inl KeyError
      | Some VNone \<Rightarrow> zoom_levels raw_doc
      | Some (VInt iz) \<Rightarrow>
          and_then (zoom_levels raw_doc) (\<lambda>zl.
            if iz \<notin> set zl then Inl subset_error else Inr [iz])
      | Some (VList iz) \<Rightarrow>
          if length iz \<le> 2 then
            (case iz of
               [] \<Rightarrow> Inl ValueError
             | x # xs \<Rightarrow>
                 (case ints_of iz of
                    None \<Rightarrow>
                      if xs = [] then and_then (zoom_levels raw_doc) (\<lambda>zl. Inl subset_error)
                      else Inl TypeError
                  | Some is \<Rightarrow>
                      and_then (zoom_levels raw_doc) (\<lambda>zl.
                        if fold min is (hd is) \<notin> set zl \<or> fold max is (hd is) \<notin> set zl
                        then Inl subset_error
                        else Inr [fold min is (hd is)..fold max is (hd is)])))
          else Inl (MapcheteConfigError ''configuration init zooms not properly formated'')
      | Some _ \<Rightarrow> Inl (MapcheteConfigError ''configuration init zooms not properly formated''))"

text \<open>The properties \<^verbatim>\<open>bounds\<close> and \<^verbatim>\<open>init_bounds\<close>.\<close>

definition bounds :: "'g environment \<Rightarrow> 'g config \<Rightarrow> error + val list" where
  "bounds env self =
     (case map_of (raw self) ''bounds'' of
        None \<Rightarrow> Inl KeyError
      | Some VNone \<Rightarrow> Inr (pyramid_bounds env (process_pyramid self))
      | Some b \<Rightarrow> validate_bounds b)"

definition init_bounds :: "'g environment \<Rightarrow> 'g config \<Rightarrow> error + val list" where
  "init_bounds env self =
     (case map_of (raw self) ''init_bounds'' of
        None \<Rightarrow> Inl KeyError
      | Some VNone \<Rightarrow> bounds env self
      | Some b \<Rightarrow> validate_bounds b)"

subsection \<open>Parameters per zoom level\<close>

text \<open>
  \<^verbatim>\<open>_raw_at_zoom(config, zooms)\<close>: for every zoom level the parameters that are not
  reserved, filtered by \<^verbatim>\<open>_element_at_zoom\<close>; \<open>params_at\<close> is the inner loop.
\<close>

fun params_at :: "pydict \<Rightarrow> int \<Rightarrow> pydict \<Rightarrow> error + pydict" where
  "params_at [] zoom params = Inr params"
| "params_at ((name, element) # config) zoom params =
     (if name \<notin> set RESERVED_PARAMETERS then
        and_then (element_at_zoom name element zoom) (\<lambda>out_element.
          if out_element \<noteq> VNone then params_at config zoom (dict_set params name out_element)
          else params_at config zoom params)
      else params_at config zoom params)"

fun raw_at_zoom_loop ::
  "pydict \<Rightarrow> int list \<Rightarrow> (int \<times> pydict) list \<Rightarrow> error + (int \<times> pydict) list" where
  "raw_at_zoom_loop config [] per_zoom = Inr per_zoom"
| "raw_at_zoom_loop config (zoom # zooms) per_zoom =
     and_then (params_at config zoom []) (\<lambda>params.
       raw_at_zoom_loop config zooms (dict_set per_zoom zoom params))"

definition raw_at_zoom :: "pydict \<Rightarrow> int list \<Rightarrow> error + (int \<times> pydict) list" where
  "raw_at_zoom config zooms = raw_at_zoom_loop config zooms []"

subsection \<open>Output and input\<close>

text \<open>
  The cached property \<^verbatim>\<open>output\<close>. The first access completes the \<^verbatim>\<open>output\<close> dictionary of
  \<^verbatim>\<open>self._raw\<close> in place (\<^verbatim>\<open>path\<close>, \<^verbatim>\<open>type\<close>, \<^verbatim>\<open>pixelbuffer\<close>, \<^verbatim>\<open>metatiling\<close>), loads the writer
  and stores it; every later access returns the stored writer and touches nothing.
  \<open>complete_output_params\<close> is the three \<^verbatim>\<open>update\<close> calls, \<open>load_writer\<close> the checks of the
  format and the loading of the writer.
\<close>

definition output_path :: "'g environment \<Rightarrow> val \<Rightarrow> pydict \<Rightarrow> error + pydict" where
  "output_path env dir output_params =
     (case map_of output_params ''path'' of
        Some p \<Rightarrow>
          (case (dir, p) of
             (VStr d, VStr f) \<Rightarrow>
               Inr (dict_set output_params ''path'' (VStr (normpath env (path_join env d f))))
           | _ \<Rightarrow> Inl TypeError)
      | None \<Rightarrow> Inr (dict_set output_params ''path'' VNone))"

definition complete_output_params ::
  "'g environment \<Rightarrow> 'g config \<Rightarrow> pydict \<Rightarrow> error + pydict" where
  "complete_output_params env self output_params =
     and_then (output_path env (config_dir self) output_params) (\<lambda>with_path.
       Inr (dict_update with_path
              [(''type'', pyr_type (output_pyramid self)),
               (''pixelbuffer'', pyr_pixelbuffer (output_pyramid self)),
               (''metatiling'', pyr_metatiling (output_pyramid self))]))"

definition load_writer :: "'g environment \<Rightarrow> pydict \<Rightarrow> error + nat" where
  "load_writer env output_params =
     (case map_of output_params ''format'' of
        None \<Rightarrow> Inl (MapcheteConfigError ''output format not specified'')
      | Some f \<Rightarrow>
          if \<not> (case f of VStr s \<Rightarrow> s \<in> set (available_output_formats env) | _ \<Rightarrow> False)
          then Inl (MapcheteConfigError ''format not available'')
          else
            and_then (load_output_writer env output_params) (\<lambda>writer.
              case is_valid_with_config env writer output_params of
                Inl _ \<Rightarrow> Inl (MapcheteConfigError ''driver not compatible with configuration'')
              | Inr _ \<Rightarrow> Inr writer))"

definition output_property :: "'g environment \<Rightarrow> 'g config \<Rightarrow> error + nat \<times> 'g config" where
  "output_property env self =
     (case output_cache self of
        Some writer \<Rightarrow> Inr (writer, self)
      | None \<Rightarrow>
          (case map_of (raw self) ''output'' of
             None \<Rightarrow> Inl KeyError
           | Some (VDict output_params) \<Rightarrow>
               and_then (complete_output_params env self output_params) (\<lambda>params.
               and_then (load_writer env params) (\<lambda>writer.
                 Inr (writer,
                      self\<lparr>raw := dict_set (raw self) ''output'' (VDict params),
                           output_cache := Some writer\<rparr>)))
           | Some (VStr _) \<Rightarrow> Inl AttributeError
           | Some (VList _) \<Rightarrow> Inl AttributeError
           | Some _ \<Rightarrow> Inl TypeError))"

text \<open>
  The cached property \<^verbatim>\<open>input\<close>. First the declarations in use at the initialised zoom
  levels are gathered in the dictionary \<^verbatim>\<open>raw_inputs\<close>, whose keys are their hashes:
  \<open>register_inputs\<close> is the loop over one flattened tree, \<open>collect_inputs\<close> the loop over the
  zoom levels.
\<close>

fun register_inputs ::
  "(string \<Rightarrow> int) \<Rightarrow> (string \<times> val) list \<Rightarrow> (int option \<times> val) list
   \<Rightarrow> error + (int option \<times> val) list" where
  "register_inputs h [] raw_inputs = Inr raw_inputs"
| "register_inputs h ((key, v) # flat) raw_inputs =
     (if v \<noteq> VNone then
        and_then (get_hash h v) (\<lambda>k. register_inputs h flat (dict_set raw_inputs k v))
      else register_inputs h flat raw_inputs)"

fun collect_inputs ::
  "(string \<Rightarrow> int) \<Rightarrow> (int \<times> pydict) list \<Rightarrow> int list \<Rightarrow> (int option \<times> val) list
   \<Rightarrow> error + (int option \<times> val) list" where
  "collect_inputs h per_zoom [] raw_inputs = Inr raw_inputs"
| "collect_inputs h per_zoom (zoom # zooms) raw_inputs =
     (case map_of per_zoom zoom of
        None \<Rightarrow> Inl KeyError
      | Some params \<Rightarrow>
          (case map_of params ''input'' of
             None \<Rightarrow> collect_inputs h per_zoom zooms raw_inputs
           | Some VNone \<Rightarrow> collect_inputs h per_zoom zooms raw_inputs
           | Some (VDict input_at_zoom) \<Rightarrow>
               and_then (register_inputs h (flatten_tree input_at_zoom None) raw_inputs)
                 (collect_inputs h per_zoom zooms)
           | Some _ \<Rightarrow> Inl AttributeError))"

text \<open>
  Then every item of \<^verbatim>\<open>raw_inputs\<close> is loaded once: a string is a path (joined to the
  configuration directory unless it is remote), a dictionary an abstract input, anything
  else is invalid. A driver that fails gives \<^verbatim>\<open>MapcheteDriverError\<close>. The bounding box of
  the new reader is asked for at once, and the reader is stored under the hash.
\<close>

definition is_remote :: "string \<Rightarrow> bool" where
  "is_remote v = (startswith v ''s3://'' \<or> startswith v ''https://'' \<or> startswith v ''http://'')"

definition input_source_of :: "'g environment \<Rightarrow> val \<Rightarrow> val \<Rightarrow> error + input_source" where
  "input_source_of env dir v =
     (case v of
        VStr s \<Rightarrow>
          if is_remote s then Inr (PathSource s)
          else (case dir of
                  VStr d \<Rightarrow> Inr (PathSource (normpath env (path_join env d s)))
                | _ \<Rightarrow> Inl TypeError)
      | VDict d \<Rightarrow> Inr (AbstractSource d dir)
      | _ \<Rightarrow> Inl (MapcheteConfigError ''invalid input type''))"

fun load_inputs ::
  "'g environment \<Rightarrow> 'g config \<Rightarrow> delimiters \<Rightarrow> (int option \<times> val) list
   \<Rightarrow> nat \<Rightarrow> (int option \<times> nat \<times> reader_params) list
   \<Rightarrow> error + nat \<times> (int option \<times> nat \<times> reader_params) list" where
  "load_inputs env self dl [] fresh initalized_inputs = Inr (fresh, initalized_inputs)"
| "load_inputs env self dl ((k, v) # raw_inputs) fresh initalized_inputs =
     and_then (input_source_of env (config_dir self) v) (\<lambda>src.
       let params = \<lparr>rp_source = src, rp_pyramid = process_pyramid self,
                     rp_pixelbuffer = pyr_pixelbuffer (process_pyramid self),
                     rp_delimiters = dl, rp_readonly = (mode self = VStr ''readonly'')\<rparr>
       in if \<not> load_input_reader env params then Inl MapcheteDriverError
          else and_then (reader_bbox env params) (\<lambda>_.
                 load_inputs env self dl raw_inputs (Suc fresh)
                   (dict_set initalized_inputs k (fresh, params))))"

definition input_property ::
  "'g environment \<Rightarrow> 'g config
   \<Rightarrow> error + (int option \<times> nat \<times> reader_params) list \<times> 'g config" where
  "input_property env self =
     (case input_cache self of
        Some inputs \<Rightarrow> Inr (inputs, self)
      | None \<Rightarrow>
          and_then (init_zoom_levels (raw self)) (\<lambda>zooms.
          and_then (init_bounds env self) (\<lambda>ib.
          and_then (bounds env self) (\<lambda>pb.
          and_then (collect_inputs (str_hash env) (params_per_zoom self) zooms []) (\<lambda>raw_inputs.
          and_then (load_inputs env self
                      \<lparr>dl_zoom = zooms, dl_bounds = ib, dl_process_bounds = pb\<rparr>
                      raw_inputs (next_object self) []) (\<lambda>(fresh, inputs).
            Inr (inputs, self\<lparr>input_cache := Some inputs, next_object := fresh\<rparr>)))))))"

subsection \<open>The constructor\<close>

text \<open>
  Step (3) of \<^verbatim>\<open>__init__\<close>: the process and the output pyramid. Everything raised in this
  block becomes a \<^verbatim>\<open>MapcheteConfigError\<close>.
\<close>

definition make_pyramids :: "'g environment \<Rightarrow> pydict \<Rightarrow> error + pyramid \<times> pyramid" where
  "make_pyramids env raw_doc =
     wrap_config_error
       (case (map_of raw_doc ''pyramid'', map_of raw_doc ''output'') of
          (Some (VDict pyr), Some (VDict out)) \<Rightarrow>
            (let process_metatiling = dict_get pyr ''metatiling'' (VInt 1);
                 output_metatiling = dict_get out ''metatiling'' process_metatiling
             in case py_gt output_metatiling process_metatiling of
                  None \<Rightarrow> Inl TypeError
                | Some True \<Rightarrow>
                    Inl (MapcheteConfigError
                           ''output metatiles must be smaller than process metatiles'')
                | Some False \<Rightarrow>
                    and_then (subscript (VDict pyr) ''grid'') (\<lambda>grid.
                      let process_pixelbuffer = dict_get pyr ''pixelbuffer'' (VInt 0);
                          output_pixelbuffer = dict_get out ''pixelbuffer'' (VInt 0)
                      in if \<not> pyramid_ok env grid process_metatiling process_pixelbuffer
                         then Inl (MapcheteConfigError ''BufferedTilePyramid'')
                         else if \<not> pyramid_ok env grid output_metatiling output_pixelbuffer
                         then Inl (MapcheteConfigError ''BufferedTilePyramid'')
                         else Inr (\<lparr>pyr_type = grid, pyr_metatiling = process_metatiling,
                                    pyr_pixelbuffer = process_pixelbuffer\<rparr>,
                                   \<lparr>pyr_type = grid, pyr_metatiling = output_metatiling,
                                    pyr_pixelbuffer = output_pixelbuffer\<rparr>)))
        | (None, _) \<Rightarrow> Inl KeyError
        | (_, None) \<Rightarrow> Inl KeyError
        | _ \<Rightarrow> Inl AttributeError)"

definition valid_mode :: "val \<Rightarrow> bool" where
  "valid_mode m =
     (case m of
        VStr s \<Rightarrow> s \<in> set [''memory'', ''continue'', ''readonly'', ''overwrite'']
      | _ \<Rightarrow> False)"

definition MANDATORY_TYPES :: "(string \<times> pytype list) list" where
  "MANDATORY_TYPES =
     [(''process_file'', [TStr]), (''pyramid'', [TDict]), (''input'', [TDict, TNoneType]),
      (''output'', [TDict]), (''zoom_levels'', [TInt, TDict])]"

text \<open>
  \<^verbatim>\<open>MapcheteConfig.__init__(input_config, zoom, bounds, mode)\<close>: the new object, or the
  exception that ends the construction. The steps are those of the source, in its order:
  \<open>prepare\<close> is step (0), the document as a dictionary in the new layout with the two
  arguments stored in it; \<open>validate\<close> is steps (1) to (4), mandatory parameters, process
  file, pyramids and mode; then come (5) the parameters per initialised zoom level,
  (6) the output and (7) the input. \<open>new_object\<close> is the object as it is before step (6).
\<close>

definition prepare :: "'g environment \<Rightarrow> val \<Rightarrow> val \<Rightarrow> val \<Rightarrow> error + pydict" where
  "prepare env input_config zoom bnds =
     and_then (config_to_dict env input_config) (\<lambda>as_dict.
     and_then (map_to_new_config as_dict) (\<lambda>mapped.
       Inr (dict_set (dict_set mapped ''init_zoom_levels'' zoom) ''init_bounds'' bnds)))"

definition validate ::
  "'g environment \<Rightarrow> pydict \<Rightarrow> val \<Rightarrow> error + string \<times> val \<times> pyramid \<times> pyramid" where
  "validate env raw_doc md =
     and_then (wrap_config_error (validate_values (VDict raw_doc) MANDATORY_TYPES)) (\<lambda>_.
     and_then (validate_process_file env raw_doc) (\<lambda>file.
     and_then (subscript (VDict raw_doc) ''config_dir'') (\<lambda>dir.
     and_then (make_pyramids env raw_doc) (\<lambda>(process_pyr, output_pyr).
       if \<not> valid_mode md then Inl (MapcheteConfigError ''unknown mode'')
       else Inr (file, dir, process_pyr, output_pyr)))))"

definition new_object ::
  "pydict \<Rightarrow> string \<times> val \<times> pyramid \<times> pyramid \<Rightarrow> val \<Rightarrow> (int \<times> pydict) list \<Rightarrow> 'g config"
  where
  "new_object raw_doc validated md per_zoom =
     (case validated of (file, dir, process_pyr, output_pyr) \<Rightarrow>
        \<lparr>raw = raw_doc, process_file = file, config_dir = dir,
         process_pyramid = process_pyr, output_pyramid = output_pyr, mode = md,
         params_per_zoom = per_zoom, output_cache = None, input_cache = None,
         next_object = 0, cache_area_at_zoom = [], cache_full_process_area = None\<rparr>)"

definition init ::
  "'g environment \<Rightarrow> val \<Rightarrow> val \<Rightarrow> val \<Rightarrow> val \<Rightarrow> error + 'g config" where
  "init env input_config zoom bnds md =
     and_then (prepare env input_config zoom bnds) (\<lambda>raw_doc.
     and_then (validate env raw_doc md) (\<lambda>validated.
     and_then (init_zoom_levels raw_doc) (\<lambda>zooms.
     and_then (raw_at_zoom raw_doc zooms) (\<lambda>per_zoom.
     and_then (output_property env (new_object raw_doc validated md per_zoom))
       (\<lambda>(writer, with_output).
     and_then (input_property env with_output) (\<lambda>(inputs, with_input).
       Inr with_input))))))"

subsection \<open>Statements about the constructor\<close>

text \<open>
  The zoom levels an \<^verbatim>\<open>zoom\<close> argument asks for: the one level of an integer, or the range
  from the least to the greatest of a list of one or two integers.
\<close>

definition requested_zooms :: "val \<Rightarrow> int list option" where
  "requested_zooms zoom =
     (case zoom of
        VInt z \<Rightarrow> Some [z]
      | VList xs \<Rightarrow>
          if xs \<noteq> [] \<and> length xs \<le> 2 then
            (case ints_of xs of
               None \<Rightarrow> None
             | Some is \<Rightarrow> Some [fold min is (hd is)..fold max is (hd is)])
          else None
      | _ \<Rightarrow> None)"

text \<open>
  A sample environment and a sample document, for evaluating the constructor: every file
  exists and compiles, every pyramid and driver loads, the only output format is
  \<^verbatim>\<open>GTiff\<close>, a geometry is the list of the boxes (or bounds) it is the union of.
\<close>

definition sample_environment :: "val list list environment" where
  "sample_environment =
     \<lparr>file_ext = (\<lambda>p. drop (length p - 9) p),
      read_mapchete_file = (\<lambda>p. Inl KeyError),
      dirname_realpath = (\<lambda>p. ''/''),
      path_join = (\<lambda>a b. a @ ''/'' @ b),
      normpath = (\<lambda>p. p),
      isfile = (\<lambda>p. True),
      py_compiles = (\<lambda>p. True),
      pyramid_ok = (\<lambda>g m p. True),
      pyramid_bounds = (\<lambda>p. [VInt (- 180), VInt (- 90), VInt 180, VInt 90]),
      available_output_formats = [''GTiff''],
      load_output_writer = (\<lambda>p. Inr 0),
      is_valid_with_config = (\<lambda>w p. Inr True),
      str_hash = string_code,
      load_input_reader = (\<lambda>p. True),
      reader_bbox = (\<lambda>p. Inr [dl_bounds (rp_delimiters p)]),
      cascaded_union = concat,
      intersection = (\<lambda>a b. filter (\<lambda>x. x \<in> set b) a),
      box = (\<lambda>b. [b]),
      buffer0 = remdups,
      is_empty = (\<lambda>g. g = []),
      geom_bounds = (\<lambda>g. case g of [] \<Rightarrow> [] | b # _ \<Rightarrow> b)\<rparr>"

definition sample_document :: "val \<Rightarrow> val \<Rightarrow> val \<Rightarrow> val" where
  "sample_document zooms process_metatiling output_metatiling =
     VDict [(''process_file'', VStr ''process.py''),
            (''config_dir'', VStr ''/conf''),
            (''pyramid'', VDict [(''grid'', VStr ''geodetic''),
                                 (''metatiling'', process_metatiling)]),
            (''input'', VDict [(''file1'', VStr ''a.tif''),
                               (''file2'', VDict [(''zoom<3'', VStr ''a.tif''),
                                                  (''zoom>=3'', VStr ''b.tif'')])]),
            (''output'', VDict [(''format'', VStr ''GTiff''), (''path'', VStr ''out''),
                                (''metatiling'', output_metatiling)]),
            (''zoom_levels'', zooms)]"

text \<open>The sample document as \<open>prepare\<close> leaves it.\<close>

definition sample_raw :: "val \<Rightarrow> val \<Rightarrow> val \<Rightarrow> val \<Rightarrow> pydict" where
  "sample_raw zooms process_metatiling output_metatiling zoom =
     (case sample_document zooms process_metatiling output_metatiling of
        VDict d \<Rightarrow> d @ [(''mapchete_file'', VNone), (''bounds'', VNone),
                        (''init_zoom_levels'', zoom), (''init_bounds'', VNone)]
      | _ \<Rightarrow> [])"

subsection \<open>The methods of the object\<close>

text \<open>
  \<^verbatim>\<open>self.input[get_hash(v)]\<close>: the property is read (and computed, if its cache is
  empty), then the identity of \<^verbatim>\<open>v\<close>, then the reader stored under it.
\<close>

definition reader_of ::
  "'g environment \<Rightarrow> 'g config \<Rightarrow> val \<Rightarrow> error + (nat \<times> reader_params) \<times> 'g config" where
  "reader_of env self v =
     and_then (input_property env self) (\<lambda>(inputs, self').
     and_then (get_hash (str_hash env) v) (\<lambda>k.
       case map_of inputs k of
         None \<Rightarrow> Inl KeyError
       | Some reader \<Rightarrow> Inr (reader, self')))"

text \<open>
  \<^verbatim>\<open>params_at_zoom(zoom)\<close>: the snapshot of the parameters for a zoom level. The parameters
  are copied, the input tree is flattened, every declaration is replaced by its reader
  (\<open>dereference\<close> is this loop, filling the dictionary \<^verbatim>\<open>flat_inputs\<close>), and the tree is
  built again by \<^verbatim>\<open>_unflatten_tree\<close>.
\<close>

fun dereference ::
  "'g environment \<Rightarrow> (string \<times> val) list \<Rightarrow> pydict \<Rightarrow> 'g config
   \<Rightarrow> error + pydict \<times> 'g config" where
  "dereference env [] flat_inputs self = Inr (flat_inputs, self)"
| "dereference env ((k, v) # flat) flat_inputs self =
     (if v = VNone then dereference env flat (dict_set flat_inputs k VNone) self
      else and_then (reader_of env self v) (\<lambda>(reader, self').
             dereference env flat (dict_set flat_inputs k (VObj (fst reader))) self'))"

definition params_at_zoom ::
  "'g environment \<Rightarrow> 'g config \<Rightarrow> int \<Rightarrow> error + pydict \<times> 'g config" where
  "params_at_zoom env self zoom =
     and_then (init_zoom_levels (raw self)) (\<lambda>zooms.
       if zoom \<notin> set zooms then Inl ValueError
       else
         (case map_of (params_per_zoom self) zoom of
            None \<Rightarrow> Inl KeyError
          | Some params \<Rightarrow>
              (let out = dict_set params ''input'' (VDict []) in
               case map_of params ''input'' of
                 None \<Rightarrow> Inr (dict_set out ''input'' (VDict []), self)
               | Some (VDict tree) \<Rightarrow>
                   and_then (dereference env (flatten_tree tree None) [] self)
                     (\<lambda>(flat_inputs, self').
                   and_then (unflatten_tree flat_inputs) (\<lambda>nested.
                     Inr (dict_set out ''input'' (VDict nested), self')))
               | Some _ \<Rightarrow> Inl AttributeError)))"

text \<open>
  \<^verbatim>\<open>_area_at_zoom(zoom)\<close>: the union of the bounding boxes of the items of the input
  dictionary of the zoom level (not of its flattened tree), cut by the initialised bounds,
  which are a tuple of four and so true; without an input, the box of the bounds. The
  result is kept in \<^verbatim>\<open>_cache_area_at_zoom\<close>. \<open>input_boxes\<close> is the list comprehension.
\<close>

fun input_boxes ::
  "'g environment \<Rightarrow> pydict \<Rightarrow> 'g config \<Rightarrow> error + 'g list \<times> 'g config" where
  "input_boxes env [] self = Inr ([], self)"
| "input_boxes env ((k, v) # items) self =
     (if v \<noteq> VNone then
        and_then (reader_of env self v) (\<lambda>(reader, self').
        and_then (reader_bbox env (snd reader)) (\<lambda>b.
        and_then (input_boxes env items self') (\<lambda>(boxes, self'').
          Inr (b # boxes, self''))))
      else input_boxes env items self)"

definition area_at_zoom_cached ::
  "'g environment \<Rightarrow> 'g config \<Rightarrow> int \<Rightarrow> error + 'g \<times> 'g config" where
  "area_at_zoom_cached env self zoom =
     (case map_of (cache_area_at_zoom self) zoom of
        Some area \<Rightarrow> Inr (area, self)
      | None \<Rightarrow>
          (case map_of (params_per_zoom self) zoom of
             None \<Rightarrow> Inl KeyError
           | Some params \<Rightarrow>
               (case map_of params ''input'' of
                  Some (VDict items) \<Rightarrow>
                    and_then (input_boxes env items self) (\<lambda>(boxes, self').
                    and_then (init_bounds env self') (\<lambda>ib.
                      let input_union = cascaded_union env boxes;
                          area = (if ib \<noteq> [] then intersection env input_union (box env ib)
                                  else input_union)
                      in Inr (area, self'\<lparr>cache_area_at_zoom :=
                                            dict_set (cache_area_at_zoom self') zoom area\<rparr>)))
                | Some _ \<Rightarrow> Inl AttributeError
                | None \<Rightarrow>
                    and_then (init_bounds env self) (\<lambda>ib.
                      Inr (box env ib,
                           self\<lparr>cache_area_at_zoom :=
                                  dict_set (cache_area_at_zoom self) zoom (box env ib)\<rparr>)))))"

text \<open>
  \<^verbatim>\<open>area_at_zoom(zoom=None)\<close>: for an integer the area of that zoom level, which must be
  initialised; for \<^verbatim>\<open>None\<close> the union over all initialised zoom levels, taken from
  \<^verbatim>\<open>_cache_full_process_area\<close> when that holds a geometry that is true, that is, not empty.
  \<open>areas_of\<close> is the list comprehension.
\<close>

fun areas_of ::
  "'g environment \<Rightarrow> int list \<Rightarrow> 'g config \<Rightarrow> error + 'g list \<times> 'g config" where
  "areas_of env [] self = Inr ([], self)"
| "areas_of env (z # zs) self =
     and_then (area_at_zoom_cached env self z) (\<lambda>(area, self').
     and_then (areas_of env zs self') (\<lambda>(areas, self'').
       Inr (area # areas, self'')))"

definition full_process_area ::
  "'g environment \<Rightarrow> 'g config \<Rightarrow> error + 'g \<times> 'g config" where
  "full_process_area env self =
     and_then (init_zoom_levels (raw self)) (\<lambda>zooms.
     and_then (areas_of env zooms self) (\<lambda>(areas, self').
       let area = buffer0 env (cascaded_union env areas)
       in Inr (area, self'\<lparr>cache_full_process_area := Some area\<rparr>)))"

definition area_at_zoom ::
  "'g environment \<Rightarrow> 'g config \<Rightarrow> val \<Rightarrow> error + 'g \<times> 'g config" where
  "area_at_zoom env self zoom =
     (case zoom of
        VInt z \<Rightarrow>
          and_then (init_zoom_levels (raw self)) (\<lambda>zooms.
            if z \<notin> set zooms then Inl ValueError else area_at_zoom_cached env self z)
      | VNone \<Rightarrow>
          (case cache_full_process_area self of
             None \<Rightarrow> full_process_area env self
           | Some area \<Rightarrow>
               if is_empty env area then full_process_area env self else Inr (area, self))
      | _ \<Rightarrow> Inl ValueError)"

text \<open>
  \<^verbatim>\<open>bounds_at_zoom(zoom=None)\<close>: the empty tuple for an empty area, else the bounds of the
  area, which is asked for a second time.
\<close>

definition bounds_at_zoom ::
  "'g environment \<Rightarrow> 'g config \<Rightarrow> val \<Rightarrow> error + val list \<times> 'g config" where
  "bounds_at_zoom env self zoom =
     and_then (area_at_zoom env self zoom) (\<lambda>(area, self').
       if is_empty env area then Inr ([], self')
       else and_then (area_at_zoom env self' zoom) (\<lambda>(area', self'').
              Inr (geom_bounds env area', self'')))"

text \<open>
  The property \<^verbatim>\<open>baselevels\<close>; \<open>None\<close> is the empty dictionary of a configuration without
  base levels. The defaults \<^verbatim>\<open>min(self.zoom_levels)\<close> and \<^verbatim>\<open>max(self.zoom_levels)\<close> are
  evaluated whether they are needed or not, and raise \<^verbatim>\<open>ValueError\<close> on an empty list.
\<close>

definition valid_baselevel :: "val \<Rightarrow> bool" where
  "valid_baselevel v = (case v of VInt i \<Rightarrow> 0 \<le> i | _ \<Rightarrow> False)"

definition int_of_val :: "val \<Rightarrow> int" where
  "int_of_val v = (case v of VInt i \<Rightarrow> i | _ \<Rightarrow> 0)"

definition baselevels_property ::
  "'g environment \<Rightarrow> 'g config \<Rightarrow> error + baselevels option" where
  "baselevels_property env self =
     (case map_of (raw self) ''baselevels'' of
        None \<Rightarrow> Inr None
      | Some (VDict bl) \<Rightarrow>
          (let minmax = filter (\<lambda>(k, v). k \<in> set [''min'', ''max'']) bl in
           if minmax = [] then
             Inl (MapcheteConfigError ''no min and max values given for baselevels'')
           else if \<not> list_all (\<lambda>(k, v). valid_baselevel v) minmax then
             Inl (MapcheteConfigError ''invalid baselevel zoom parameter given'')
           else
             and_then (zoom_levels (raw self)) (\<lambda>zl.
               case zl of
                 [] \<Rightarrow> Inl ValueError
               | z # zs \<Rightarrow>
                   if \<not> pyramid_ok env (pyr_type (output_pyramid self))
                          (pyr_metatiling (process_pyramid self))
                          (pyr_pixelbuffer (output_pyramid self))
                   then Inl TypeError
                   else
                     Inr (Some
                       \<lparr>bl_zooms = [int_of_val (dict_get minmax ''min'' (VInt (fold min zs z)))..
                                    int_of_val (dict_get minmax ''max'' (VInt (fold max zs z)))],
                        bl_lower = dict_get bl ''lower'' (VStr ''nearest''),
                        bl_higher = dict_get bl ''higher'' (VStr ''nearest''),
                        bl_tile_pyramid =
                          \<lparr>pyr_type = pyr_type (output_pyramid self),
                           pyr_metatiling = pyr_metatiling (process_pyramid self),
                           pyr_pixelbuffer = pyr_pixelbuffer (output_pyramid self)\<rparr>\<rparr>)))
      | Some _ \<Rightarrow> Inl AttributeError)"

subsection \<open>Using the object\<close>

text \<open>
  The operations on a configuration object, and the object after an operation or a
  sequence of operations that returned (an operation that raises ends the sequence).
\<close>

datatype operation =
    GetOutput
  | GetInput
  | GetBaselevels
  | ParamsAtZoom int
  | AreaAtZoom val
  | BoundsAtZoom val

definition state_of :: "error + 'a \<times> 'g config \<Rightarrow> error + 'g config" where
  "state_of r = (case r of Inl e \<Rightarrow> Inl e | Inr (x, self) \<Rightarrow> Inr self)"

definition perform :: "'g environment \<Rightarrow> operation \<Rightarrow> 'g config \<Rightarrow> error + 'g config" where
  "perform env op self =
     (case op of
        GetOutput \<Rightarrow> state_of (output_property env self)
      | GetInput \<Rightarrow> state_of (input_property env self)
      | GetBaselevels \<Rightarrow>
          (case baselevels_property env self of Inl e \<Rightarrow> Inl e | Inr _ \<Rightarrow> Inr self)
      | ParamsAtZoom zoom \<Rightarrow> state_of (params_at_zoom env self zoom)
      | AreaAtZoom zoom \<Rightarrow> state_of (area_at_zoom env self zoom)
      | BoundsAtZoom zoom \<Rightarrow> state_of (bounds_at_zoom env self zoom))"

fun perform_all :: "'g environment \<Rightarrow> operation list \<Rightarrow> 'g config \<Rightarrow> error + 'g config" where
  "perform_all env [] self = Inr self"
| "perform_all env (op # ops) self = and_then (perform env op self) (perform_all env ops)"

text \<open>
  What an operation on a constructed object may change: the two caches of areas, nothing
  else.
\<close>

definition same_but_areas :: "'g config \<Rightarrow> 'g config \<Rightarrow> bool" where
  "same_but_areas self self' =
     (\<exists>areas full. self' = self\<lparr>cache_area_at_zoom := areas, cache_full_process_area := full\<rparr>)"

definition constructed :: "'g config \<Rightarrow> bool" where
  "constructed self = (output_cache self \<noteq> None \<and> input_cache self \<noteq> None)"

subsection \<open>Areas without the caches\<close>

text \<open>
  For stating what the area methods return: the value of a call without the object it
  leaves behind, a list of results as one result (the first exception wins), and the area
  of a zoom level as \<^verbatim>\<open>_area_at_zoom\<close> computes it when nothing is cached, written as a
  function of the object. \<open>boxes_of\<close> is the list comprehension over the input items, read
  from the registry \<open>inputs\<close>.
\<close>

definition value_of :: "error + 'a \<times> 'g config \<Rightarrow> error + 'a" where
  "value_of r = (case r of Inl e \<Rightarrow> Inl e | Inr (x, self) \<Rightarrow> Inr x)"

fun collect :: "(error + 'a) list \<Rightarrow> error + 'a list" where
  "collect [] = Inr []"
| "collect (r # rs) = and_then r (\<lambda>x. and_then (collect rs) (\<lambda>xs. Inr (x # xs)))"

fun boxes_of ::
  "'g environment \<Rightarrow> (int option \<times> nat \<times> reader_params) list \<Rightarrow> pydict \<Rightarrow> error + 'g list"
  where
  "boxes_of env inputs [] = Inr []"
| "boxes_of env inputs ((k, v) # items) =
     (if v \<noteq> VNone then
        and_then (get_hash (str_hash env) v) (\<lambda>h.
          case map_of inputs h of
            None \<Rightarrow> Inl KeyError
          | Some reader \<Rightarrow>
              and_then (reader_bbox env (snd reader)) (\<lambda>b.
              and_then (boxes_of env inputs items) (\<lambda>boxes. Inr (b # boxes))))
      else boxes_of env inputs items)"

definition zoom_area :: "'g environment \<Rightarrow> 'g config \<Rightarrow> int \<Rightarrow> error + 'g" where
  "zoom_area env self zoom =
     (case map_of (params_per_zoom self) zoom of
        None \<Rightarrow> Inl KeyError
      | Some params \<Rightarrow>
          (case map_of params ''input'' of
             Some (VDict items) \<Rightarrow>
               and_then (boxes_of env (the (input_cache self)) items) (\<lambda>boxes.
               and_then (init_bounds env self) (\<lambda>ib.
                 Inr (if ib \<noteq> [] then intersection env (cascaded_union env boxes) (box env ib)
                      else cascaded_union env boxes)))
           | Some _ \<Rightarrow> Inl AttributeError
           | None \<Rightarrow> and_then (init_bounds env self) (\<lambda>ib. Inr (box env ib))))"

text \<open>
  The caches of a constructed object hold what the computation would give: an area cached
  for a zoom level is the area of that zoom level, and a cached full area is the buffered
  union of the areas of the initialised zoom levels.
\<close>

definition caches_consistent :: "'g environment \<Rightarrow> 'g config \<Rightarrow> bool" where
  "caches_consistent env self =
     (constructed self
      \<and> (\<forall>z a. map_of (cache_area_at_zoom self) z = Some a \<longrightarrow> zoom_area env self z = Inr a)
      \<and> (\<forall>g. cache_full_process_area self = Some g \<longrightarrow>
            (\<exists>zs areas. init_zoom_levels (raw self) = Inr zs
                       \<and> collect (map (zoom_area env self) zs) = Inr areas
                       \<and> g = buffer0 env (cascaded_union env areas))))"

subsection \<open>Trees that survive flattening\<close>

text \<open>
  A leaf of the input tree is any value that \<^verbatim>\<open>_flatten_tree\<close> does not flatten further:
  everything but a dictionary without a \<^verbatim>\<open>format\<close> key. \<open>tree_ok n t\<close> says that the tree \<open>t\<close>
  has no key twice and no key with the path separator in it, that none of its groups
  (dictionaries that are not leaves) is empty, and that groups are nested at most \<open>n\<close>
  deep below \<open>t\<close>. \<open>round_trip_ok\<close> is this for the whole tree with paths of at most three
  segments, and no group of the first level under the empty key.
\<close>

definition is_leaf :: "val \<Rightarrow> bool" where
  "is_leaf v = (case v of VDict d \<Rightarrow> has_key d ''format'' | _ \<Rightarrow> True)"

primrec tree_ok :: "nat \<Rightarrow> pydict \<Rightarrow> bool" where
  "tree_ok 0 t =
     (distinct (map fst t) \<and> list_all (\<lambda>(k, v). CHR ''/'' \<notin> set k \<and> is_leaf v) t)"
| "tree_ok (Suc n) t =
     (distinct (map fst t)
      \<and> list_all (\<lambda>(k, v). CHR ''/'' \<notin> set k
                     \<and> (is_leaf v \<or> (case v of VDict d \<Rightarrow> d \<noteq> [] \<and> tree_ok n d
                                              | _ \<Rightarrow> False))) t)"

definition round_trip_ok :: "pydict \<Rightarrow> bool" where
  "round_trip_ok t = (tree_ok 2 t \<and> list_all (\<lambda>(k, v). is_leaf v \<or> k \<noteq> []) t)"

text \<open>What \<^verbatim>\<open>_flatten_tree\<close> puts in front of a key: nothing, or the old path and the separator.\<close>

definition path_prefix :: "string option \<Rightarrow> string" where
  "path_prefix old_path =
     (case old_path of None \<Rightarrow> [] | Some p \<Rightarrow> if p \<noteq> [] then p @ ''/'' else [])"

text \<open>
  A document whose input tree is four levels deep: two files of the group \<^verbatim>\<open>a/b/c\<close> are
  the same declaration, and a third file is used on the second and on the third level.
\<close>

definition deep_document :: val where
  "deep_document =
     VDict [(''process_file'', VStr ''process.py''),
            (''config_dir'', VStr ''/conf''),
            (''pyramid'', VDict [(''grid'', VStr ''geodetic'')]),
            (''input'',
               VDict [(''a'',
                 VDict [(''b'', VDict [(''c'', VDict [(''d'', VStr ''f.tif''),
                                                      (''e'', VStr ''f.tif'')]),
                                       (''c2'', VStr ''g.tif'')]),
                        (''b2'', VStr ''g.tif'')])]),
            (''output'', VDict [(''format'', VStr ''GTiff''), (''path'', VStr ''out'')]),
            (''zoom_levels'', VInt 1)]"

section \<open>Properties of zoom level filtering\<close>

lemmas zoom_defs = has_key_def zoom_statement_def startswith_def strip_chars_def strip_ws_def
  is_space_def zoom_compare_def strip_zoom_def py_int_def py_nat_def is_digit_def digit_val_def

subsection \<open>Stripping and parsing\<close>











subsection \<open>Zoom level statements\<close>

text \<open>
  Claim C4. The node \<^verbatim>\<open>{"zoom<3": "A", "zoom>=3": "B"}\<close> under any key other than \<^verbatim>\<open>input\<close>
  resolves to \<^verbatim>\<open>"A"\<close> at zoom 2, to \<^verbatim>\<open>"B"\<close> at zoom 3, and at every integer zoom level to
  exactly one of the two values: \<^verbatim>\<open>"A"\<close> below 3 and \<^verbatim>\<open>"B"\<close> from 3 on, never an error, never
  \<^verbatim>\<open>None\<close> and never a dictionary holding both.
\<close>

theorem zoom_filtering_exactly_one:
  assumes "name \<noteq> ''input''"
  shows "element_at_zoom name (VDict [(''zoom<3'', VStr ''A''), (''zoom>=3'', VStr ''B'')]) 2
           = Inr (VStr ''A'')
       \<and> element_at_zoom name (VDict [(''zoom<3'', VStr ''A''), (''zoom>=3'', VStr ''B'')]) 3
           = Inr (VStr ''B'')
       \<and> element_at_zoom name (VDict [(''zoom<3'', VStr ''A''), (''zoom>=3'', VStr ''B'')]) zoom
           = Inr (VStr (if zoom < 3 then ''A'' else ''B''))"
  using assms by (simp add: zoom_defs)

theorem zoom_filtering_exactly_one_witness:
  "''colour'' \<noteq> ''input''
   \<and> element_at_zoom ''colour'' (VDict [(''zoom<3'', VStr ''A''), (''zoom>=3'', VStr ''B'')]) 2
       = Inr (VStr ''A'')
   \<and> element_at_zoom ''colour'' (VDict [(''zoom<3'', VStr ''A''), (''zoom>=3'', VStr ''B'')]) 3
       = Inr (VStr ''B'')
   \<and> element_at_zoom ''colour'' (VDict [(''zoom<3'', VStr ''A''), (''zoom>=3'', VStr ''B'')]) 7
       = Inr (VStr ''B'')"
proof -
  have h: "''colour'' \<noteq> ''input''" by simp
  show ?thesis using h zoom_filtering_exactly_one [OF h, of 7] by simp
qed




section \<open>Properties of the content identity\<close>








section \<open>Properties of the constructor\<close>

lemma and_then_simps [simp]:
  "and_then (Inl e) f = Inl e" "and_then (Inr x) f = f x"
  by (simp_all add: and_then_def)

lemma and_then_Inr_iff:
  "and_then m f = Inr y \<longleftrightarrow> (\<exists>x. m = Inr x \<and> f x = Inr y)"
  by (cases m) auto

lemma map_of_dict_set: "map_of (dict_set d k v) k' = (if k' = k then Some v else map_of d k')"
  by (induction d) auto

lemma prepare_init_zoom:
  "prepare env input_config zoom bnds = Inr raw_doc \<Longrightarrow>
   map_of raw_doc ''init_zoom_levels'' = Some zoom"
  by (auto simp: prepare_def and_then_Inr_iff map_of_dict_set)

lemma zoom_levels_interval:
  assumes "zoom_levels raw_doc = Inr zl"
  shows "\<exists>lo hi. set zl = {lo..hi}"
proof -
  from assms consider z where "zl = [z]" | lo hi where "zl = [lo..hi]"
    by (auto simp: zoom_levels_def split: option.splits val.splits sum.splits if_splits)
  then show ?thesis
  proof cases
    case 1
    then have "set zl = {z..z}" by simp
    then show ?thesis by blast
  next
    case 2
    then show ?thesis by auto
  qed
qed

lemma init_zoom_levels_not_subset:
  assumes iz: "map_of raw_doc ''init_zoom_levels'' = Some zoom"
    and zl: "zoom_levels raw_doc = Inr declared"
    and rq: "requested_zooms zoom = Some requested"
    and ns: "\<not> set requested \<subseteq> set declared"
  shows "init_zoom_levels raw_doc = Inl subset_error"
proof -
  obtain lo hi where d: "set declared = {lo..hi}"
    using zoom_levels_interval [OF zl] by blast
  show ?thesis
  proof (cases zoom)
    case (VInt z)
    then show ?thesis using iz zl rq ns by (auto simp: init_zoom_levels_def requested_zooms_def)
  next
    case (VList xs)
    with rq obtain zs where zs: "ints_of xs = Some zs" "xs \<noteq> []" "length xs \<le> 2"
      and r: "requested = [fold min zs (hd zs)..fold max zs (hd zs)]"
      by (auto simp: requested_zooms_def split: if_splits option.splits)
    have "fold min zs (hd zs) \<notin> set declared \<or> fold max zs (hd zs) \<notin> set declared"
      using ns r d by auto
    then show ?thesis using VList iz zl zs
      by (cases xs) (auto simp: init_zoom_levels_def)
  qed (use rq in \<open>auto simp: requested_zooms_def\<close>)
qed

lemma sample_prepare:
  "prepare sample_environment (sample_document zooms pm om) zoom VNone
     = Inr (sample_raw zooms pm om zoom)"
  by (simp add: prepare_def sample_document_def sample_raw_def config_to_dict_def has_key_def
      map_to_new_config_def map_pyramid_def map_zoom_levels_def map_bounds_def map_input_def)

text \<open>
  Claim C8. Whenever the zoom levels the \<^verbatim>\<open>zoom\<close> argument asks for are not a subset of the
  declared zoom levels (declared \<^verbatim>\<open>[1,5]\<close> and \<^verbatim>\<open>zoom=7\<close>, say), \<^verbatim>\<open>init_zoom_levels\<close> raises the
  configuration error for zoom levels and the constructor returns no object; the error of
  the constructor is that one as soon as the steps before it (mandatory parameters,
  process file, pyramids, mode) pass.
\<close>

theorem init_zooms_must_be_subset:
  assumes "prepare env input_config zoom bnds = Inr raw_doc"
    and "zoom_levels raw_doc = Inr declared"
    and "requested_zooms zoom = Some requested"
    and "\<not> set requested \<subseteq> set declared"
  shows "init_zoom_levels raw_doc = Inl subset_error
       \<and> (\<forall>self. init env input_config zoom bnds md \<noteq> Inr self)
       \<and> (\<forall>validated. validate env raw_doc md = Inr validated \<longrightarrow>
            init env input_config zoom bnds md = Inl subset_error)"
proof -
  have e: "init_zoom_levels raw_doc = Inl subset_error"
    using init_zoom_levels_not_subset [OF prepare_init_zoom [OF assms(1)] assms(2-4)] .
  have "init env input_config zoom bnds md \<noteq> Inr self" for self
    using assms(1) e by (cases "validate env raw_doc md") (simp_all add: init_def)
  moreover have "init env input_config zoom bnds md = Inl subset_error"
    if "validate env raw_doc md = Inr validated" for validated
    using assms(1) e that by (simp add: init_def)
  ultimately show ?thesis using e by blast
qed


theorem init_zooms_must_be_subset_witness:
  "prepare sample_environment
       (sample_document (VDict [(''min'', VInt 1), (''max'', VInt 5)]) (VInt 2) (VInt 2))
       (VInt 7) VNone
     = Inr (sample_raw (VDict [(''min'', VInt 1), (''max'', VInt 5)]) (VInt 2) (VInt 2) (VInt 7))
   \<and> zoom_levels (sample_raw (VDict [(''min'', VInt 1), (''max'', VInt 5)]) (VInt 2) (VInt 2)
                     (VInt 7))
     = Inr [1, 2, 3, 4, 5]
   \<and> requested_zooms (VInt 7) = Some [7]
   \<and> \<not> set [7] \<subseteq> set [1, 2, 3, 4, 5 :: int]
   \<and> init sample_environment
       (sample_document (VDict [(''min'', VInt 1), (''max'', VInt 5)]) (VInt 2) (VInt 2))
       (VInt 7) VNone (VStr ''continue'')
     = Inl subset_error"
proof -
  let ?doc = "sample_document (VDict [(''min'', VInt 1), (''max'', VInt 5)]) (VInt 2) (VInt 2)"
  let ?raw = "sample_raw (VDict [(''min'', VInt 1), (''max'', VInt 5)]) (VInt 2) (VInt 2) (VInt 7)"
  have p: "prepare sample_environment ?doc (VInt 7) VNone = Inr ?raw"
    by (rule sample_prepare)
  have z: "zoom_levels ?raw = Inr [1, 2, 3, 4, 5]"
    by (simp add: zoom_levels_def sample_raw_def sample_document_def validate_values_def
        isinstance_def upto_rec1)
  have r: "requested_zooms (VInt 7) = Some [7]"
    by (simp add: requested_zooms_def)
  have n: "\<not> set [7] \<subseteq> set [1, 2, 3, 4, 5 :: int]" by simp
  have v: "validate sample_environment ?raw (VStr ''continue'')
            = Inr (''/conf/process.py'', VStr ''/conf'',
                   \<lparr>pyr_type = VStr ''geodetic'', pyr_metatiling = VInt 2, pyr_pixelbuffer = VInt 0\<rparr>,
                   \<lparr>pyr_type = VStr ''geodetic'', pyr_metatiling = VInt 2, pyr_pixelbuffer = VInt 0\<rparr>)"
    by (simp add: validate_def sample_raw_def sample_document_def validate_values_def
        MANDATORY_TYPES_def isinstance_def wrap_config_error_def validate_process_file_def
        sample_environment_def subscript_def make_pyramids_def dict_get_def py_gt_def
        valid_mode_def Let_def)
  from init_zooms_must_be_subset [OF p z r n, of "VStr ''continue''"] p z r n v
  show ?thesis by simp
qed

lemma make_pyramids_too_big:
  assumes "map_of raw_doc ''pyramid'' = Some (VDict pyr)"
    and "map_of raw_doc ''output'' = Some (VDict out)"
    and "dict_get pyr ''metatiling'' (VInt 1) = VInt pm"
    and "dict_get out ''metatiling'' (VInt pm) = VInt om"
    and "pm < om"
  shows "make_pyramids env raw_doc =
           Inl (MapcheteConfigError ''output metatiles must be smaller than process metatiles'')"
  using assms by (simp add: make_pyramids_def py_gt_def wrap_config_error_def error_text_def)

lemma make_pyramids_fits:
  assumes "map_of raw_doc ''pyramid'' = Some (VDict pyr)"
    and "map_of raw_doc ''output'' = Some (VDict out)"
    and "dict_get pyr ''metatiling'' (VInt 1) = VInt pm"
    and "dict_get out ''metatiling'' (VInt pm) = VInt om"
    and "om \<le> pm"
  shows "make_pyramids env raw_doc =
           (case map_of pyr ''grid'' of
              None \<Rightarrow> Inl (MapcheteConfigError ''KeyError'')
            | Some grid \<Rightarrow>
                if pyramid_ok env grid (VInt pm) (dict_get pyr ''pixelbuffer'' (VInt 0))
                   \<and> pyramid_ok env grid (VInt om) (dict_get out ''pixelbuffer'' (VInt 0))
                then Inr (\<lparr>pyr_type = grid, pyr_metatiling = VInt pm,
                           pyr_pixelbuffer = dict_get pyr ''pixelbuffer'' (VInt 0)\<rparr>,
                          \<lparr>pyr_type = grid, pyr_metatiling = VInt om,
                           pyr_pixelbuffer = dict_get out ''pixelbuffer'' (VInt 0)\<rparr>)
                else Inl (MapcheteConfigError ''BufferedTilePyramid''))"
  using assms
  by (simp add: make_pyramids_def py_gt_def wrap_config_error_def error_text_def subscript_def
      Let_def split: option.splits)

text \<open>
  Claim C9. When the output metatiling is greater than the process metatiling (4 and 2,
  say), step (3) raises the configuration error and the constructor returns no object;
  the constructor raises that error once the mandatory parameters and the process file
  are in order. When the output metatiling is less than or equal to the process
  metatiling (2 and 4), the check passes: what step (3) returns depends on the grid and
  on the pyramids alone. An output without \<^verbatim>\<open>metatiling\<close> takes the process metatiling.
\<close>

theorem output_metatiling_checked:
  assumes "prepare env input_config zoom bnds = Inr raw_doc"
    and "map_of raw_doc ''pyramid'' = Some (VDict pyr)"
    and "map_of raw_doc ''output'' = Some (VDict out)"
    and "dict_get pyr ''metatiling'' (VInt 1) = VInt pm"
    and "dict_get out ''metatiling'' (VInt pm) = VInt om"
  shows "(pm < om \<longrightarrow>
            make_pyramids env raw_doc =
              Inl (MapcheteConfigError ''output metatiles must be smaller than process metatiles'')
          \<and> (\<forall>self. init env input_config zoom bnds md \<noteq> Inr self)
          \<and> (\<forall>ok path. wrap_config_error (validate_values (VDict raw_doc) MANDATORY_TYPES) = Inr ok
                \<longrightarrow> validate_process_file env raw_doc = Inr path
                \<longrightarrow> init env input_config zoom bnds md =
                      Inl (MapcheteConfigError
                             ''output metatiles must be smaller than process metatiles'')))
       \<and> (om \<le> pm \<longrightarrow>
            make_pyramids env raw_doc =
              (case map_of pyr ''grid'' of
                 None \<Rightarrow> Inl (MapcheteConfigError ''KeyError'')
               | Some grid \<Rightarrow>
                   if pyramid_ok env grid (VInt pm) (dict_get pyr ''pixelbuffer'' (VInt 0))
                      \<and> pyramid_ok env grid (VInt om) (dict_get out ''pixelbuffer'' (VInt 0))
                   then Inr (\<lparr>pyr_type = grid, pyr_metatiling = VInt pm,
                              pyr_pixelbuffer = dict_get pyr ''pixelbuffer'' (VInt 0)\<rparr>,
                             \<lparr>pyr_type = grid, pyr_metatiling = VInt om,
                              pyr_pixelbuffer = dict_get out ''pixelbuffer'' (VInt 0)\<rparr>)
                   else Inl (MapcheteConfigError ''BufferedTilePyramid'')))
       \<and> (\<not> has_key out ''metatiling'' \<longrightarrow> om = pm)"
proof (intro conjI impI allI)
  assume big: "pm < om"
  show mp: "make_pyramids env raw_doc =
      Inl (MapcheteConfigError ''output metatiles must be smaller than process metatiles'')"
    using make_pyramids_too_big [OF assms(2-5) big] .
  have v: "validate env raw_doc md \<noteq> Inr validated" for validated
    using mp by (auto simp: validate_def and_then_Inr_iff)
  show "init env input_config zoom bnds md \<noteq> Inr self" for self
    using assms(1) v by (auto simp: init_def and_then_Inr_iff)
  show "init env input_config zoom bnds md =
      Inl (MapcheteConfigError ''output metatiles must be smaller than process metatiles'')"
    if a: "wrap_config_error (validate_values (VDict raw_doc) MANDATORY_TYPES) = Inr ok"
      and b: "validate_process_file env raw_doc = Inr path" for ok path
  proof -
    obtain dir where "subscript (VDict raw_doc) ''config_dir'' = Inr dir"
      using b
      by (auto simp: validate_process_file_def subscript_def split: option.splits)
    then show ?thesis using assms(1) a b mp by (simp add: init_def validate_def)
  qed
next
  assume "om \<le> pm"
  then show "make_pyramids env raw_doc =
      (case map_of pyr ''grid'' of
         None \<Rightarrow> Inl (MapcheteConfigError ''KeyError'')
       | Some grid \<Rightarrow>
           if pyramid_ok env grid (VInt pm) (dict_get pyr ''pixelbuffer'' (VInt 0))
              \<and> pyramid_ok env grid (VInt om) (dict_get out ''pixelbuffer'' (VInt 0))
           then Inr (\<lparr>pyr_type = grid, pyr_metatiling = VInt pm,
                      pyr_pixelbuffer = dict_get pyr ''pixelbuffer'' (VInt 0)\<rparr>,
                     \<lparr>pyr_type = grid, pyr_metatiling = VInt om,
                      pyr_pixelbuffer = dict_get out ''pixelbuffer'' (VInt 0)\<rparr>)
           else Inl (MapcheteConfigError ''BufferedTilePyramid''))"
    using make_pyramids_fits [OF assms(2-5)] by simp
next
  assume "\<not> has_key out ''metatiling''"
  then have "map_of out ''metatiling'' = None"
    by (simp add: has_key_def map_of_eq_None_iff)
  then show "om = pm" using assms(5) by (simp add: dict_get_def)
qed


theorem output_metatiling_checked_witness:
  "prepare sample_environment (sample_document (VInt 3) (VInt 2) (VInt 4)) VNone VNone
     = Inr (sample_raw (VInt 3) (VInt 2) (VInt 4) VNone)
   \<and> map_of (sample_raw (VInt 3) (VInt 2) (VInt 4) VNone) ''pyramid''
     = Some (VDict [(''grid'', VStr ''geodetic''), (''metatiling'', VInt 2)])
   \<and> map_of (sample_raw (VInt 3) (VInt 2) (VInt 4) VNone) ''output''
     = Some (VDict [(''format'', VStr ''GTiff''), (''path'', VStr ''out''),
                    (''metatiling'', VInt 4)])
   \<and> dict_get [(''grid'', VStr ''geodetic''), (''metatiling'', VInt 2)] ''metatiling'' (VInt 1)
     = VInt 2
   \<and> dict_get [(''format'', VStr ''GTiff''), (''path'', VStr ''out''), (''metatiling'', VInt 4)]
       ''metatiling'' (VInt 2)
     = VInt 4
   \<and> (2 :: int) < 4
   \<and> init sample_environment (sample_document (VInt 3) (VInt 2) (VInt 4)) VNone VNone
       (VStr ''continue'')
     = Inl (MapcheteConfigError ''output metatiles must be smaller than process metatiles'')"
proof -
  let ?raw = "sample_raw (VInt 3) (VInt 2) (VInt 4) VNone"
  have p: "prepare sample_environment (sample_document (VInt 3) (VInt 2) (VInt 4)) VNone VNone
             = Inr ?raw"
    by (rule sample_prepare)
  have a: "map_of ?raw ''pyramid''
             = Some (VDict [(''grid'', VStr ''geodetic''), (''metatiling'', VInt 2)])"
    by (simp add: sample_raw_def sample_document_def)
  have b: "map_of ?raw ''output''
             = Some (VDict [(''format'', VStr ''GTiff''), (''path'', VStr ''out''),
                            (''metatiling'', VInt 4)])"
    by (simp add: sample_raw_def sample_document_def)
  have c: "dict_get [(''grid'', VStr ''geodetic''), (''metatiling'', VInt 2)] ''metatiling''
             (VInt 1) = VInt 2"
    by (simp add: dict_get_def)
  have d: "dict_get [(''format'', VStr ''GTiff''), (''path'', VStr ''out''),
                     (''metatiling'', VInt 4)] ''metatiling'' (VInt 2) = VInt 4"
    by (simp add: dict_get_def)
  have v: "wrap_config_error (validate_values (VDict ?raw) MANDATORY_TYPES) = Inr True"
    by (simp add: sample_raw_def sample_document_def validate_values_def MANDATORY_TYPES_def
        isinstance_def wrap_config_error_def)
  have f: "validate_process_file sample_environment ?raw = Inr ''/conf/process.py''"
    by (simp add: sample_raw_def sample_document_def validate_process_file_def
        sample_environment_def)
  from output_metatiling_checked [OF p a b c d, of "VStr ''continue''"] p a b c d v f
  show ?thesis by auto
qed

lemma output_property_effect:
  assumes "output_property env self = Inr (writer, self')"
  shows "self' = self
       \<or> (\<exists>params. self' = self\<lparr>raw := dict_set (raw self) ''output'' (VDict params),
                                  output_cache := Some writer\<rparr>)"
  using assms
  by (auto simp: output_property_def and_then_Inr_iff split: option.splits val.splits)

lemma zoom_levels_cong:
  "map_of a ''zoom_levels'' = map_of b ''zoom_levels'' \<Longrightarrow> zoom_levels a = zoom_levels b"
  by (simp add: zoom_levels_def)

lemma init_zoom_levels_cong:
  assumes z: "map_of a ''zoom_levels'' = map_of b ''zoom_levels''"
    and i: "map_of a ''init_zoom_levels'' = map_of b ''init_zoom_levels''"
  shows "init_zoom_levels a = init_zoom_levels b"
proof -
  have e: "zoom_levels a = zoom_levels b" using z by (rule zoom_levels_cong)
  show ?thesis unfolding init_zoom_levels_def e i ..
qed

lemma zoom_levels_empty_range:
  assumes "map_of raw_doc ''zoom_levels'' = Some (VDict rz)"
    and "map_of rz ''min'' = Some (VInt lo)" "map_of rz ''max'' = Some (VInt hi)" "hi < lo"
  shows "zoom_levels raw_doc = Inr []"
  using assms by (simp add: zoom_levels_def validate_values_def isinstance_def)

text \<open>
  Claim C10. A \<^verbatim>\<open>zoom_levels\<close> mapping with integers \<^verbatim>\<open>min > max\<close> raises nothing: the declared
  zoom levels are the empty range, without a \<^verbatim>\<open>zoom\<close> argument the initialised ones are
  empty too, there are no parameters per zoom level, and once the other steps pass
  (validation, output, bounds) the constructor returns an object with no zoom levels and
  no inputs.
\<close>

theorem empty_zoom_range_builds:
  assumes "prepare env input_config VNone bnds = Inr raw_doc"
    and "map_of raw_doc ''zoom_levels'' = Some (VDict rz)"
    and "map_of rz ''min'' = Some (VInt lo)"
    and "map_of rz ''max'' = Some (VInt hi)"
    and "hi < lo"
  shows "zoom_levels raw_doc = Inr []
       \<and> init_zoom_levels raw_doc = Inr []
       \<and> raw_at_zoom raw_doc [] = Inr []
       \<and> (\<forall>validated writer obj ib pb.
             validate env raw_doc md = Inr validated
             \<longrightarrow> output_property env (new_object raw_doc validated md []) = Inr (writer, obj)
             \<longrightarrow> init_bounds env obj = Inr ib
             \<longrightarrow> bounds env obj = Inr pb
             \<longrightarrow> (\<exists>self. init env input_config VNone bnds md = Inr self
                        \<and> zoom_levels (raw self) = Inr []
                        \<and> init_zoom_levels (raw self) = Inr []
                        \<and> params_per_zoom self = []
                        \<and> input_cache self = Some []))"
proof (intro conjI allI impI)
  show z: "zoom_levels raw_doc = Inr []"
    using zoom_levels_empty_range [OF assms(2-5)] .
  have iz: "map_of raw_doc ''init_zoom_levels'' = Some VNone"
    using prepare_init_zoom [OF assms(1)] .
  show i: "init_zoom_levels raw_doc = Inr []"
    using z iz by (simp add: init_zoom_levels_def)
  show r: "raw_at_zoom raw_doc [] = Inr []"
    by (simp add: raw_at_zoom_def)
  fix validated writer and obj :: "'a config" and ib pb
  assume v: "validate env raw_doc md = Inr validated"
    and out: "output_property env (new_object raw_doc validated md []) = Inr (writer, obj)"
    and ib: "init_bounds env obj = Inr ib" and pb: "bounds env obj = Inr pb"
  let ?new = "new_object raw_doc validated md [] :: 'a config"
  have new: "raw ?new = raw_doc" "params_per_zoom ?new = []" "input_cache ?new = None"
    by (simp_all add: new_object_def split: prod.splits)
  have keep: "params_per_zoom obj = []" "input_cache obj = None"
    and same: "map_of (raw obj) ''zoom_levels'' = map_of raw_doc ''zoom_levels''"
      "map_of (raw obj) ''init_zoom_levels'' = map_of raw_doc ''init_zoom_levels''"
    using output_property_effect [OF out] new by (auto simp: map_of_dict_set)
  have zo: "zoom_levels (raw obj) = Inr []"
    using zoom_levels_cong [OF same(1)] z by simp
  have io: "init_zoom_levels (raw obj) = Inr []"
    using init_zoom_levels_cong [OF same] i by simp
  have inp: "input_property env obj
      = Inr ([], obj\<lparr>input_cache := Some [], next_object := next_object obj\<rparr>)"
    using keep io ib pb by (simp add: input_property_def)
  have "init env input_config VNone bnds md
      = Inr (obj\<lparr>input_cache := Some [], next_object := next_object obj\<rparr>)"
    using assms(1) v i r out inp by (simp add: init_def)
  then show "\<exists>self. init env input_config VNone bnds md = Inr self
      \<and> zoom_levels (raw self) = Inr [] \<and> init_zoom_levels (raw self) = Inr []
      \<and> params_per_zoom self = [] \<and> input_cache self = Some []"
    using zo io keep by simp
qed


theorem empty_zoom_range_builds_witness:
  "prepare sample_environment
       (sample_document (VDict [(''min'', VInt 5), (''max'', VInt 1)]) (VInt 2) (VInt 2))
       VNone VNone
     = Inr (sample_raw (VDict [(''min'', VInt 5), (''max'', VInt 1)]) (VInt 2) (VInt 2) VNone)
   \<and> map_of (sample_raw (VDict [(''min'', VInt 5), (''max'', VInt 1)]) (VInt 2) (VInt 2) VNone)
       ''zoom_levels''
     = Some (VDict [(''min'', VInt 5), (''max'', VInt 1)])
   \<and> map_of [(''min'', VInt 5), (''max'', VInt 1)] ''min'' = Some (VInt 5)
   \<and> map_of [(''min'', VInt 5), (''max'', VInt 1)] ''max'' = Some (VInt 1)
   \<and> (1 :: int) < 5
   \<and> (\<exists>self. init sample_environment
                (sample_document (VDict [(''min'', VInt 5), (''max'', VInt 1)]) (VInt 2) (VInt 2))
                VNone VNone (VStr ''continue'')
              = Inr self
            \<and> zoom_levels (raw self) = Inr []
            \<and> init_zoom_levels (raw self) = Inr []
            \<and> params_per_zoom self = []
            \<and> input_cache self = Some [])"
proof -
  let ?z = "VDict [(''min'', VInt 5), (''max'', VInt 1)]"
  let ?raw = "sample_raw ?z (VInt 2) (VInt 2) VNone"
  let ?pyr = "\<lparr>pyr_type = VStr ''geodetic'', pyr_metatiling = VInt 2, pyr_pixelbuffer = VInt 0\<rparr>"
  let ?v = "(''/conf/process.py'', VStr ''/conf'', ?pyr, ?pyr)"
  let ?new = "new_object ?raw ?v (VStr ''continue'') [] :: val list list config"
  let ?params = "[(''format'', VStr ''GTiff''), (''path'', VStr ''/conf/out''),
                  (''metatiling'', VInt 2), (''type'', VStr ''geodetic''),
                  (''pixelbuffer'', VInt 0)]"
  let ?obj = "?new\<lparr>raw := dict_set (raw ?new) ''output'' (VDict ?params),
                     output_cache := Some 0\<rparr>"
  have p: "prepare sample_environment (sample_document ?z (VInt 2) (VInt 2)) VNone VNone
             = Inr ?raw"
    by (rule sample_prepare)
  have a: "map_of ?raw ''zoom_levels'' = Some ?z"
    by (simp add: sample_raw_def sample_document_def)
  have b: "map_of [(''min'', VInt 5), (''max'', VInt 1)] ''min'' = Some (VInt 5)"
    "map_of [(''min'', VInt 5), (''max'', VInt 1)] ''max'' = Some (VInt 1)" "(1 :: int) < 5"
    by simp_all
  have v: "validate sample_environment ?raw (VStr ''continue'') = Inr ?v"
    by (simp add: validate_def sample_raw_def sample_document_def validate_values_def
        MANDATORY_TYPES_def isinstance_def wrap_config_error_def validate_process_file_def
        sample_environment_def subscript_def make_pyramids_def dict_get_def py_gt_def
        valid_mode_def Let_def)
  have out: "output_property sample_environment ?new = Inr (0, ?obj)"
    by (simp add: output_property_def new_object_def sample_raw_def sample_document_def
        complete_output_params_def output_path_def load_writer_def sample_environment_def
        dict_update_def)
  have ib: "init_bounds sample_environment ?obj
              = Inr [VInt (- 180), VInt (- 90), VInt 180, VInt 90]"
    and pb: "bounds sample_environment ?obj
              = Inr [VInt (- 180), VInt (- 90), VInt 180, VInt 90]"
    by (simp_all add: init_bounds_def bounds_def new_object_def sample_raw_def
        sample_document_def sample_environment_def)
  from empty_zoom_range_builds [OF p a b, of "VStr ''continue''"] v out ib pb p a b
  show ?thesis by blast
qed

section \<open>Properties of a constructed object\<close>

lemma same_but_areas_refl: "same_but_areas self self"
  unfolding same_but_areas_def
  by (rule exI [of _ "cache_area_at_zoom self"], rule exI [of _ "cache_full_process_area self"])
     simp

lemma same_but_areas_trans:
  "same_but_areas a b \<Longrightarrow> same_but_areas b c \<Longrightarrow> same_but_areas a c"
  unfolding same_but_areas_def by (elim exE, simp) blast

lemma same_but_areas_fields:
  assumes "same_but_areas self self'"
  shows "raw self' = raw self" "output_cache self' = output_cache self"
    "input_cache self' = input_cache self" "params_per_zoom self' = params_per_zoom self"
  using assms unfolding same_but_areas_def by auto

lemma same_but_areas_constructed:
  "same_but_areas self self' \<Longrightarrow> constructed self \<Longrightarrow> constructed self'"
  by (simp add: constructed_def same_but_areas_fields)

lemma same_but_areas_area_update:
  "same_but_areas self (self\<lparr>cache_area_at_zoom := x\<rparr>)"
  unfolding same_but_areas_def
  by (rule exI [of _ x], rule exI [of _ "cache_full_process_area self"]) simp

lemma same_but_areas_full_update:
  "same_but_areas self (self\<lparr>cache_full_process_area := x\<rparr>)"
  unfolding same_but_areas_def
  by (rule exI [of _ "cache_area_at_zoom self"], rule exI [of _ x]) simp

lemma output_property_cached:
  "constructed self \<Longrightarrow> output_property env self = Inr (w, self') \<Longrightarrow> self' = self"
  by (auto simp: constructed_def output_property_def)

lemma input_property_cached:
  "constructed self \<Longrightarrow> input_property env self = Inr (i, self') \<Longrightarrow> self' = self"
  by (auto simp: constructed_def input_property_def)

lemma reader_of_cached:
  "constructed self \<Longrightarrow> reader_of env self v = Inr (r, self') \<Longrightarrow> self' = self"
  by (auto simp: reader_of_def and_then_Inr_iff split: option.splits
      dest: input_property_cached)

lemma dereference_cached:
  "constructed self \<Longrightarrow> dereference env flat acc self = Inr (r, self') \<Longrightarrow> self' = self"
proof (induction flat arbitrary: acc)
  case Nil
  then show ?case by simp
next
  case (Cons kv flat)
  obtain k v where kv: "kv = (k, v)" by (cases kv)
  show ?case
  proof (cases "v = VNone")
    case True
    then show ?thesis using Cons kv by simp
  next
    case False
    with Cons.prems kv obtain reader s where r: "reader_of env self v = Inr (reader, s)"
      and d: "dereference env flat (dict_set acc k (VObj (fst reader))) s = Inr (r, self')"
      by (auto simp: and_then_Inr_iff)
    have "s = self" using reader_of_cached [OF Cons.prems(1) r] .
    then show ?thesis using Cons.IH [OF Cons.prems(1)] d by simp
  qed
qed

lemma params_at_zoom_cached:
  "constructed self \<Longrightarrow> params_at_zoom env self zoom = Inr (r, self') \<Longrightarrow> self' = self"
  by (auto simp: params_at_zoom_def and_then_Inr_iff Let_def
      split: option.splits val.splits if_splits dest: dereference_cached)

lemma input_boxes_cached:
  "constructed self \<Longrightarrow> input_boxes env items self = Inr (r, self') \<Longrightarrow> self' = self"
proof (induction items arbitrary: r)
  case Nil
  then show ?case by simp
next
  case (Cons kv items)
  obtain k v where kv: "kv = (k, v)" by (cases kv)
  show ?case
  proof (cases "v = VNone")
    case True
    then show ?thesis using Cons kv by simp
  next
    case False
    with Cons.prems kv obtain reader s boxes where r: "reader_of env self v = Inr (reader, s)"
      and d: "input_boxes env items s = Inr (boxes, self')"
      by (auto simp: and_then_Inr_iff)
    have "s = self" using reader_of_cached [OF Cons.prems(1) r] .
    then show ?thesis using Cons.IH [OF Cons.prems(1)] d by simp
  qed
qed

lemma area_at_zoom_cached_same:
  assumes "constructed self" "area_at_zoom_cached env self zoom = Inr (a, self')"
  shows "same_but_areas self self'"
proof (cases "map_of (cache_area_at_zoom self) zoom")
  case (Some area)
  then show ?thesis using assms by (simp add: area_at_zoom_cached_def same_but_areas_refl)
next
  case None
  then obtain params where p: "map_of (params_per_zoom self) zoom = Some params"
    using assms(2) by (auto simp: area_at_zoom_cached_def split: option.splits)
  show ?thesis
  proof (cases "map_of params ''input''")
    case none: None
    then show ?thesis using assms None p
      by (auto simp: area_at_zoom_cached_def and_then_Inr_iff same_but_areas_area_update)
  next
    case (Some inp)
    then obtain items where i: "inp = VDict items"
      using assms None p by (cases inp) (auto simp: area_at_zoom_cached_def)
    from assms(2) None p Some i obtain boxes s ib where
      b: "input_boxes env items self = Inr (boxes, s)"
      and e: "self' = s\<lparr>cache_area_at_zoom := dict_set (cache_area_at_zoom s) zoom a\<rparr>"
      by (auto simp: area_at_zoom_cached_def and_then_Inr_iff Let_def)
    have "s = self" using input_boxes_cached [OF assms(1) b] .
    then show ?thesis using e by (simp add: same_but_areas_area_update)
  qed
qed

lemma areas_of_same:
  "constructed self \<Longrightarrow> areas_of env zs self = Inr (r, self') \<Longrightarrow> same_but_areas self self'"
proof (induction zs arbitrary: self r)
  case Nil
  then show ?case by (simp add: same_but_areas_refl)
next
  case (Cons z zs)
  from Cons.prems(2) obtain a s areas where 1: "area_at_zoom_cached env self z = Inr (a, s)"
    and 2: "areas_of env zs s = Inr (areas, self')"
    by (auto simp: and_then_Inr_iff)
  have s: "same_but_areas self s" using area_at_zoom_cached_same [OF Cons.prems(1) 1] .
  have "same_but_areas s self'"
    using Cons.IH [OF same_but_areas_constructed [OF s Cons.prems(1)] 2] .
  with s show ?case by (rule same_but_areas_trans)
qed

lemma full_process_area_same:
  assumes "constructed self" "full_process_area env self = Inr (a, self')"
  shows "same_but_areas self self'"
proof -
  from assms(2) obtain zooms areas s where 1: "areas_of env zooms self = Inr (areas, s)"
    and 2: "self' = s\<lparr>cache_full_process_area := Some a\<rparr>"
    by (auto simp: full_process_area_def and_then_Inr_iff Let_def)
  have "same_but_areas self s" using areas_of_same [OF assms(1) 1] .
  moreover have "same_but_areas s self'" unfolding 2 by (rule same_but_areas_full_update)
  ultimately show ?thesis by (rule same_but_areas_trans)
qed

lemma area_at_zoom_same:
  assumes "constructed self" "area_at_zoom env self zoom = Inr (a, self')"
  shows "same_but_areas self self'"
  using assms
  by (cases zoom)
     (auto simp: area_at_zoom_def and_then_Inr_iff same_but_areas_refl
       split: option.splits if_splits
       dest: full_process_area_same area_at_zoom_cached_same)

lemma bounds_at_zoom_same:
  assumes "constructed self" "bounds_at_zoom env self zoom = Inr (b, self')"
  shows "same_but_areas self self'"
proof -
  from assms(2) obtain a s where 1: "area_at_zoom env self zoom = Inr (a, s)"
    and 2: "self' = s \<or> (\<exists>a'. area_at_zoom env s zoom = Inr (a', self'))"
    by (auto simp: bounds_at_zoom_def and_then_Inr_iff split: if_splits)
  have s: "same_but_areas self s" using area_at_zoom_same [OF assms(1) 1] .
  from 2 show ?thesis
  proof
    assume "self' = s" with s show ?thesis by simp
  next
    assume "\<exists>a'. area_at_zoom env s zoom = Inr (a', self')"
    then obtain a' where "area_at_zoom env s zoom = Inr (a', self')" ..
    then have "same_but_areas s self'"
      using area_at_zoom_same [OF same_but_areas_constructed [OF s assms(1)]] by simp
    with s show ?thesis by (rule same_but_areas_trans)
  qed
qed

lemma perform_same:
  assumes "constructed self" "perform env op self = Inr self'"
  shows "same_but_areas self self'"
proof (cases op)
  case GetOutput
  then show ?thesis using assms
    by (auto simp: perform_def state_of_def same_but_areas_refl split: sum.splits
        dest: output_property_cached)
next
  case GetInput
  then show ?thesis using assms
    by (auto simp: perform_def state_of_def same_but_areas_refl split: sum.splits
        dest: input_property_cached)
next
  case GetBaselevels
  then show ?thesis using assms
    by (auto simp: perform_def same_but_areas_refl split: sum.splits)
next
  case (ParamsAtZoom z)
  then show ?thesis using assms
    by (auto simp: perform_def state_of_def same_but_areas_refl split: sum.splits
        dest: params_at_zoom_cached)
next
  case (AreaAtZoom z)
  then show ?thesis using assms
    by (auto simp: perform_def state_of_def split: sum.splits dest: area_at_zoom_same)
next
  case (BoundsAtZoom z)
  then show ?thesis using assms
    by (auto simp: perform_def state_of_def split: sum.splits dest: bounds_at_zoom_same)
qed

lemma perform_all_same:
  "constructed self \<Longrightarrow> perform_all env ops self = Inr self' \<Longrightarrow> same_but_areas self self'"
proof (induction ops arbitrary: self)
  case Nil
  then show ?case by (simp add: same_but_areas_refl)
next
  case (Cons op ops)
  from Cons.prems(2) obtain s where 1: "perform env op self = Inr s"
    and 2: "perform_all env ops s = Inr self'"
    by (auto simp: and_then_Inr_iff)
  have s: "same_but_areas self s" using perform_same [OF Cons.prems(1) 1] .
  have "same_but_areas s self'"
    using Cons.IH [OF same_but_areas_constructed [OF s Cons.prems(1)] 2] .
  with s show ?case by (rule same_but_areas_trans)
qed

lemma output_property_sets_cache:
  "output_property env self = Inr (w, self') \<Longrightarrow> output_cache self' = Some w"
  by (auto simp: output_property_def and_then_Inr_iff split: option.splits val.splits)

lemma input_property_sets_cache:
  "input_property env self = Inr (i, self') \<Longrightarrow>
   input_cache self' = Some i \<and> output_cache self' = output_cache self \<and> raw self' = raw self"
  by (auto simp: input_property_def and_then_Inr_iff split: option.splits)

lemma init_constructed:
  assumes "init env input_config zoom bnds md = Inr self"
  shows "constructed self"
proof -
  from assms obtain new w s i where o: "output_property env new = Inr (w, s)"
    and n: "input_property env s = Inr (i, self)"
    by (auto simp: init_def and_then_Inr_iff)
  show ?thesis
    using output_property_sets_cache [OF o] input_property_sets_cache [OF n]
    by (simp add: constructed_def)
qed

text \<open>
  Claim C7. On an object that \<^verbatim>\<open>__init__\<close> returned, no sequence of operations (reading
  \<^verbatim>\<open>output\<close>, \<^verbatim>\<open>input\<close> or \<^verbatim>\<open>baselevels\<close>, calling \<^verbatim>\<open>params_at_zoom\<close>, \<^verbatim>\<open>area_at_zoom\<close> or
  \<^verbatim>\<open>bounds_at_zoom\<close>) changes the raw document: \<^verbatim>\<open>output\<close>, the one property that writes to
  it, was computed and cached by the constructor.
\<close>

theorem raw_document_never_mutated:
  assumes "init env input_config zoom bnds md = Inr self"
    and "perform_all env ops self = Inr self'"
  shows "raw self' = raw self"
  using same_but_areas_fields(1) [OF perform_all_same [OF init_constructed [OF assms(1)] assms(2)]] .


theorem raw_document_never_mutated_witness:
  "\<exists>self self'.
     init sample_environment
       (sample_document (VDict [(''min'', VInt 2), (''max'', VInt 3)]) (VInt 2) (VInt 2))
       VNone VNone (VStr ''continue'') = Inr self
   \<and> perform_all sample_environment
       [ParamsAtZoom 3, AreaAtZoom VNone, BoundsAtZoom (VInt 2), GetOutput, GetInput,
        GetBaselevels] self = Inr self'
   \<and> raw self' = raw self"
proof -
  have "case init sample_environment
          (sample_document (VDict [(''min'', VInt 2), (''max'', VInt 3)]) (VInt 2) (VInt 2))
          VNone VNone (VStr ''continue'') of
          Inl e \<Rightarrow> False
        | Inr self \<Rightarrow>
            (case perform_all sample_environment
                    [ParamsAtZoom 3, AreaAtZoom VNone, BoundsAtZoom (VInt 2), GetOutput,
                     GetInput, GetBaselevels] self of
               Inl e \<Rightarrow> False
             | Inr self' \<Rightarrow> True)"
    by code_simp
  then obtain self self' where
    i: "init sample_environment
          (sample_document (VDict [(''min'', VInt 2), (''max'', VInt 3)]) (VInt 2) (VInt 2))
          VNone VNone (VStr ''continue'') = Inr self"
    and p: "perform_all sample_environment
          [ParamsAtZoom 3, AreaAtZoom VNone, BoundsAtZoom (VInt 2), GetOutput, GetInput,
           GetBaselevels] self = Inr self'"
    by (auto split: sum.splits)
  from raw_document_never_mutated [OF i p] i p show ?thesis by blast
qed

section \<open>Properties of the process area\<close>

lemma value_of_simps [simp]:
  "value_of (Inl e) = Inl e" "value_of (Inr (x, s)) = Inr x"
  by (simp_all add: value_of_def)

lemma reader_of_registry:
  assumes "input_cache self = Some inputs"
  shows "reader_of env self v =
           and_then (get_hash (str_hash env) v) (\<lambda>k.
             case map_of inputs k of None \<Rightarrow> Inl KeyError | Some r \<Rightarrow> Inr (r, self))"
  using assms by (simp add: reader_of_def input_property_def)

lemma input_boxes_registry:
  assumes "input_cache self = Some inputs"
  shows "input_boxes env items self =
           (case boxes_of env inputs items of Inl e \<Rightarrow> Inl e | Inr bs \<Rightarrow> Inr (bs, self))"
proof (induction items)
  case Nil
  show ?case by simp
next
  case (Cons kv items)
  obtain k v where kv: "kv = (k, v)" by (cases kv)
  show ?case
    unfolding kv
  proof (cases "v = VNone")
    case True
    then show "input_boxes env ((k, v) # items) self =
        (case boxes_of env inputs ((k, v) # items) of
           Inl e \<Rightarrow> Inl e | Inr bs \<Rightarrow> Inr (bs, self))"
      by (simp add: Cons.IH)
  next
    case False
    show "input_boxes env ((k, v) # items) self =
        (case boxes_of env inputs ((k, v) # items) of
           Inl e \<Rightarrow> Inl e | Inr bs \<Rightarrow> Inr (bs, self))"
    proof (cases "get_hash (str_hash env) v")
      case (Inl e)
      then show ?thesis using False by (simp add: reader_of_registry [OF assms])
    next
      case (Inr h)
      show ?thesis
      proof (cases "map_of inputs h")
        case None
        then show ?thesis using False Inr by (simp add: reader_of_registry [OF assms])
      next
        case (Some r)
        show ?thesis
          by (cases "reader_bbox env (snd r)"; cases "boxes_of env inputs items")
             (simp_all add: False Inr Some Cons.IH reader_of_registry [OF assms])
      qed
    qed
  qed
qed

lemma zoom_area_same:
  assumes "same_but_areas s s'"
  shows "zoom_area env s' z = zoom_area env s z"
proof -
  from assms obtain areas full where
    e: "s' = s\<lparr>cache_area_at_zoom := areas, cache_full_process_area := full\<rparr>"
    unfolding same_but_areas_def by blast
  have ib: "init_bounds env s' = init_bounds env s"
    unfolding e by (simp add: init_bounds_def bounds_def cong: option.case_cong val.case_cong)
  have pp: "params_per_zoom s' = params_per_zoom s" and ic: "input_cache s' = input_cache s"
    unfolding e by simp_all
  show ?thesis unfolding zoom_area_def ib pp ic ..
qed

lemma collect_zoom_area_same:
  assumes "same_but_areas s s'"
  shows "collect (map (zoom_area env s') zs) = collect (map (zoom_area env s) zs)"
proof -
  have "zoom_area env s' = zoom_area env s"
    by (rule ext) (rule zoom_area_same [OF assms])
  then show ?thesis by simp
qed

lemma caches_consistent_same:
  assumes c: "caches_consistent env s" and s: "same_but_areas s s'"
    and a: "cache_area_at_zoom s' = cache_area_at_zoom s"
    and f: "cache_full_process_area s' = cache_full_process_area s"
  shows "caches_consistent env s'"
  using c unfolding caches_consistent_def
  by (simp add: a f same_but_areas_fields [OF s] zoom_area_same [OF s]
      collect_zoom_area_same [OF s] constructed_def)

lemma area_at_zoom_cached_value:
  assumes c: "caches_consistent env s"
  shows "value_of (area_at_zoom_cached env s z) = zoom_area env s z"
proof (cases "map_of (cache_area_at_zoom s) z")
  case (Some a)
  then have "zoom_area env s z = Inr a" using c by (simp add: caches_consistent_def)
  then show ?thesis using Some by (simp add: area_at_zoom_cached_def)
next
  case None
  from c obtain inputs where i: "input_cache s = Some inputs"
    by (auto simp: caches_consistent_def constructed_def)
  show ?thesis
    using None i
    by (simp add: area_at_zoom_cached_def zoom_area_def input_boxes_registry [OF i] Let_def
        and_then_def split: option.splits val.splits sum.splits)
qed

lemma area_at_zoom_cached_keeps:
  assumes c: "caches_consistent env s" and r: "area_at_zoom_cached env s z = Inr (a, s')"
  shows "caches_consistent env s'"
proof -
  have con: "constructed s" using c by (simp add: caches_consistent_def)
  have same: "same_but_areas s s'" using area_at_zoom_cached_same [OF con r] .
  have val: "zoom_area env s z = Inr a"
    using area_at_zoom_cached_value [OF c, of z] r by simp
  have full: "cache_full_process_area s' = cache_full_process_area s"
    and area: "cache_area_at_zoom s' = cache_area_at_zoom s
             \<or> cache_area_at_zoom s' = dict_set (cache_area_at_zoom s) z a"
  proof -
    from con obtain inputs where i: "input_cache s = Some inputs"
      by (auto simp: constructed_def)
    from r have "s' = s \<or> s' = s\<lparr>cache_area_at_zoom := dict_set (cache_area_at_zoom s) z a\<rparr>"
      by (auto simp: area_at_zoom_cached_def input_boxes_registry [OF i] Let_def
          and_then_Inr_iff split: option.splits val.splits sum.splits)
    then show "cache_full_process_area s' = cache_full_process_area s"
      and "cache_area_at_zoom s' = cache_area_at_zoom s
         \<or> cache_area_at_zoom s' = dict_set (cache_area_at_zoom s) z a"
      by auto
  qed
  have "zoom_area env s' z' = Inr b" if "map_of (cache_area_at_zoom s') z' = Some b" for z' b
  proof -
    have "zoom_area env s z' = Inr b"
      using area that c val
      by (auto simp: caches_consistent_def map_of_dict_set split: if_splits)
    then show ?thesis by (simp add: zoom_area_same [OF same])
  qed
  then show ?thesis
    using c unfolding caches_consistent_def
    by (simp add: full same_but_areas_fields [OF same] zoom_area_same [OF same]
        collect_zoom_area_same [OF same] constructed_def)
qed

lemma areas_of_value:
  "caches_consistent env s \<Longrightarrow>
   value_of (areas_of env zs s) = collect (map (zoom_area env s) zs)
   \<and> (\<forall>areas s'. areas_of env zs s = Inr (areas, s') \<longrightarrow>
         caches_consistent env s' \<and> same_but_areas s s'
         \<and> cache_full_process_area s' = cache_full_process_area s)"
proof (induction zs arbitrary: s)
  case Nil
  then show ?case by (simp add: same_but_areas_refl)
next
  case (Cons z zs)
  have con: "constructed s" using Cons.prems by (simp add: caches_consistent_def)
  show ?case
  proof (cases "area_at_zoom_cached env s z")
    case (Inl e)
    then have "zoom_area env s z = Inl e"
      using area_at_zoom_cached_value [OF Cons.prems, of z] by simp
    then show ?thesis using Inl by simp
  next
    case (Inr r)
    obtain a s1 where r: "r = (a, s1)" by (cases r)
    have 1: "area_at_zoom_cached env s z = Inr (a, s1)" using Inr r by simp
    have v: "zoom_area env s z = Inr a"
      using area_at_zoom_cached_value [OF Cons.prems, of z] 1 by simp
    have c1: "caches_consistent env s1" using area_at_zoom_cached_keeps [OF Cons.prems 1] .
    have s1: "same_but_areas s s1" using area_at_zoom_cached_same [OF con 1] .
    have f1: "cache_full_process_area s1 = cache_full_process_area s"
    proof -
      from con obtain inputs where i: "input_cache s = Some inputs"
        by (auto simp: constructed_def)
      from 1 have "s1 = s \<or> s1 = s\<lparr>cache_area_at_zoom := dict_set (cache_area_at_zoom s) z a\<rparr>"
        by (auto simp: area_at_zoom_cached_def input_boxes_registry [OF i] Let_def
            and_then_Inr_iff split: option.splits val.splits sum.splits)
      then show ?thesis by auto
    qed
    note ih = Cons.IH [OF c1]
    have rest: "value_of (areas_of env zs s1) = collect (map (zoom_area env s) zs)"
      using ih collect_zoom_area_same [OF s1] by simp
    show ?thesis
    proof (cases "areas_of env zs s1")
      case (Inl e)
      with rest have "collect (map (zoom_area env s) zs) = Inl e" by simp
      then show ?thesis using Inl 1 v by simp
    next
      case (Inr q)
      obtain areas s2 where q: "q = (areas, s2)" by (cases q)
      have 2: "areas_of env zs s1 = Inr (areas, s2)" using Inr q by simp
      from ih 2 have k: "caches_consistent env s2" "same_but_areas s1 s2"
        "cache_full_process_area s2 = cache_full_process_area s1" by auto
      have t: "same_but_areas s s2" using s1 k(2) by (rule same_but_areas_trans)
      have col: "collect (map (zoom_area env s) zs) = Inr areas" using rest 2 by simp
      show ?thesis using 1 2 v col k f1 t by simp
    qed
  qed
qed

lemma full_process_area_value:
  assumes c: "caches_consistent env s" and z: "init_zoom_levels (raw s) = Inr zs"
  shows "value_of (full_process_area env s) =
           and_then (collect (map (zoom_area env s) zs)) (\<lambda>areas.
             Inr (buffer0 env (cascaded_union env areas)))"
    and "full_process_area env s = Inr (g, s') \<Longrightarrow> caches_consistent env s'"
proof -
  note av = areas_of_value [OF c, of zs]
  show "value_of (full_process_area env s) =
           and_then (collect (map (zoom_area env s) zs)) (\<lambda>areas.
             Inr (buffer0 env (cascaded_union env areas)))"
  proof (cases "areas_of env zs s")
    case (Inl e)
    with av have "collect (map (zoom_area env s) zs) = Inl e" by simp
    then show ?thesis using Inl z by (simp add: full_process_area_def)
  next
    case (Inr r)
    obtain areas s1 where r: "r = (areas, s1)" by (cases r)
    have col: "collect (map (zoom_area env s) zs) = Inr areas" using av Inr r by simp
    show ?thesis using Inr r col z by (simp add: full_process_area_def Let_def)
  qed
  assume f: "full_process_area env s = Inr (g, s')"
  then obtain areas s1 where 1: "areas_of env zs s = Inr (areas, s1)"
    and 2: "g = buffer0 env (cascaded_union env areas)"
    and 3: "s' = s1\<lparr>cache_full_process_area := Some g\<rparr>"
    using z by (auto simp: full_process_area_def and_then_Inr_iff Let_def)
  from av 1 have c1: "caches_consistent env s1" and s1: "same_but_areas s s1"
    and col: "collect (map (zoom_area env s) zs) = Inr areas"
    by auto
  have s2: "same_but_areas s1 s'" unfolding 3 by (rule same_but_areas_full_update)
  have raw1: "raw s1 = raw s" using same_but_areas_fields(1) [OF s1] .
  have col1: "collect (map (zoom_area env s1) zs) = Inr areas"
    using col collect_zoom_area_same [OF s1] by simp
  show "caches_consistent env s'"
    using c1 unfolding caches_consistent_def
    by (simp add: same_but_areas_fields [OF s2] zoom_area_same [OF s2]
        collect_zoom_area_same [OF s2] constructed_def)
       (auto simp: 3 2 raw1 z col1)
qed

lemma area_at_zoom_None_value:
  assumes c: "caches_consistent env s" and z: "init_zoom_levels (raw s) = Inr zs"
  shows "value_of (area_at_zoom env s VNone) =
           and_then (collect (map (zoom_area env s) zs)) (\<lambda>areas.
             Inr (buffer0 env (cascaded_union env areas)))"
proof (cases "cache_full_process_area s")
  case None
  then show ?thesis using full_process_area_value(1) [OF c z] by (simp add: area_at_zoom_def)
next
  case (Some g)
  show ?thesis
  proof (cases "is_empty env g")
    case True
    then show ?thesis using Some full_process_area_value(1) [OF c z]
      by (simp add: area_at_zoom_def)
  next
    case False
    from c Some z obtain areas where "collect (map (zoom_area env s) zs) = Inr areas"
      "g = buffer0 env (cascaded_union env areas)"
      by (auto simp: caches_consistent_def)
    then show ?thesis using Some False by (simp add: area_at_zoom_def)
  qed
qed

lemma area_at_zoom_int_value:
  assumes c: "caches_consistent env s" and z: "init_zoom_levels (raw s) = Inr zs"
    and m: "z \<in> set zs"
  shows "value_of (area_at_zoom env s (VInt z)) = zoom_area env s z"
  using z m area_at_zoom_cached_value [OF c, of z] by (simp add: area_at_zoom_def)

lemma area_at_zoom_keeps:
  assumes c: "caches_consistent env s" and r: "area_at_zoom env s zoom = Inr (a, s')"
  shows "caches_consistent env s'"
proof (cases zoom)
  case VNone
  from c obtain zs' where "init_zoom_levels (raw s) = Inr zs' \<or> full_process_area env s \<noteq> Inr (a, s')"
    by (cases "init_zoom_levels (raw s)") (auto simp: full_process_area_def)
  then show ?thesis using VNone r c full_process_area_value(2) [OF c]
    by (auto simp: area_at_zoom_def split: option.splits if_splits)
next
  case (VInt z)
  then show ?thesis using r area_at_zoom_cached_keeps [OF c]
    by (auto simp: area_at_zoom_def and_then_Inr_iff split: if_splits)
qed (use r in \<open>simp_all add: area_at_zoom_def\<close>)

lemma perform_keeps:
  assumes c: "caches_consistent env s" and p: "perform env op s = Inr s'"
  shows "caches_consistent env s'"
proof -
  have con: "constructed s" using c by (simp add: caches_consistent_def)
  show ?thesis
  proof (cases op)
    case GetOutput
    then show ?thesis using p c output_property_cached [OF con]
      by (auto simp: perform_def state_of_def split: sum.splits)
  next
    case GetInput
    then show ?thesis using p c input_property_cached [OF con]
      by (auto simp: perform_def state_of_def split: sum.splits)
  next
    case GetBaselevels
    then show ?thesis using p c by (auto simp: perform_def split: sum.splits)
  next
    case (ParamsAtZoom z)
    then show ?thesis using p c params_at_zoom_cached [OF con]
      by (auto simp: perform_def state_of_def split: sum.splits)
  next
    case (AreaAtZoom z)
    then show ?thesis using p area_at_zoom_keeps [OF c]
      by (auto simp: perform_def state_of_def split: sum.splits)
  next
    case (BoundsAtZoom z)
    with p obtain b where "bounds_at_zoom env s z = Inr (b, s')"
      by (auto simp: perform_def state_of_def split: sum.splits)
    then obtain a s1 where 1: "area_at_zoom env s z = Inr (a, s1)"
      and 2: "s' = s1 \<or> (\<exists>a'. area_at_zoom env s1 z = Inr (a', s'))"
      by (auto simp: bounds_at_zoom_def and_then_Inr_iff split: if_splits)
    have c1: "caches_consistent env s1" using area_at_zoom_keeps [OF c 1] .
    from 2 show ?thesis using c1 area_at_zoom_keeps [OF c1] by auto
  qed
qed

lemma perform_all_keeps:
  "caches_consistent env s \<Longrightarrow> perform_all env ops s = Inr s' \<Longrightarrow> caches_consistent env s'"
proof (induction ops arbitrary: s)
  case Nil
  then show ?case by simp
next
  case (Cons op ops)
  from Cons.prems(2) obtain s1 where 1: "perform env op s = Inr s1"
    and 2: "perform_all env ops s1 = Inr s'"
    by (auto simp: and_then_Inr_iff)
  show ?case using Cons.IH [OF perform_keeps [OF Cons.prems(1) 1] 2] .
qed

lemma init_caches_consistent:
  assumes "init env input_config zoom bnds md = Inr self"
  shows "caches_consistent env self"
proof -
  from assms obtain raw_doc validated per_zoom w s i where
    o: "output_property env (new_object raw_doc validated md per_zoom) = Inr (w, s)"
    and n: "input_property env s = Inr (i, self)"
    by (auto simp: init_def and_then_Inr_iff)
  have "cache_area_at_zoom s = [] \<and> cache_full_process_area s = None"
    using output_property_effect [OF o] by (auto simp: new_object_def split: prod.splits)
  then have "cache_area_at_zoom self = [] \<and> cache_full_process_area self = None"
    using n by (auto simp: input_property_def and_then_Inr_iff split: option.splits)
  then show ?thesis using init_constructed [OF assms] by (simp add: caches_consistent_def)
qed

text \<open>
  Claim C5. On a constructed object, after any operations, \<^verbatim>\<open>area_at_zoom(None)\<close> returns
  the union (\<^verbatim>\<open>cascaded_union\<close>, then \<^verbatim>\<open>buffer(0)\<close>) of the areas that \<^verbatim>\<open>area_at_zoom(z)\<close>
  returns for the initialised zoom levels \<^verbatim>\<open>z\<close>, whether the values come from the caches or
  not, and raises exactly when one of those calls raises. With no zoom level it returns
  the union of nothing: an empty union is a geometry, not an error.
\<close>

theorem full_area_is_union_of_zoom_areas:
  assumes "init env input_config zoom bnds md = Inr self"
    and "perform_all env ops self = Inr s"
    and "init_zoom_levels (raw s) = Inr zs"
  shows "value_of (area_at_zoom env s VNone) =
           and_then (collect (map (\<lambda>z. value_of (area_at_zoom env s (VInt z))) zs)) (\<lambda>areas.
             Inr (buffer0 env (cascaded_union env areas)))
       \<and> (zs = [] \<longrightarrow>
            value_of (area_at_zoom env s VNone) = Inr (buffer0 env (cascaded_union env [])))"
proof -
  have c: "caches_consistent env s"
    using perform_all_keeps [OF init_caches_consistent [OF assms(1)] assms(2)] .
  have "map (\<lambda>z. value_of (area_at_zoom env s (VInt z))) zs = map (zoom_area env s) zs"
    by (rule map_cong [OF refl]) (rule area_at_zoom_int_value [OF c assms(3)])
  then have 1: "value_of (area_at_zoom env s VNone) =
           and_then (collect (map (\<lambda>z. value_of (area_at_zoom env s (VInt z))) zs)) (\<lambda>areas.
             Inr (buffer0 env (cascaded_union env areas)))"
    using area_at_zoom_None_value [OF c assms(3)] by (simp only:)
  then show ?thesis by auto
qed


theorem full_area_is_union_of_zoom_areas_witness:
  "\<exists>self s.
     init sample_environment
       (sample_document (VDict [(''min'', VInt 2), (''max'', VInt 3)]) (VInt 2) (VInt 2))
       VNone VNone (VStr ''continue'') = Inr self
   \<and> perform_all sample_environment [AreaAtZoom (VInt 2), BoundsAtZoom VNone] self = Inr s
   \<and> init_zoom_levels (raw s) = Inr [2, 3]
   \<and> value_of (area_at_zoom sample_environment s VNone) =
       and_then (collect (map (\<lambda>z. value_of (area_at_zoom sample_environment s (VInt z)))
                           [2, 3]))
         (\<lambda>areas. Inr (buffer0 sample_environment (cascaded_union sample_environment areas)))
   \<and> value_of (area_at_zoom sample_environment s VNone)
       = Inr [[VInt (- 180), VInt (- 90), VInt 180, VInt 90]]"
proof -
  have "case init sample_environment
          (sample_document (VDict [(''min'', VInt 2), (''max'', VInt 3)]) (VInt 2) (VInt 2))
          VNone VNone (VStr ''continue'') of
          Inl e \<Rightarrow> False
        | Inr self \<Rightarrow>
            (case perform_all sample_environment [AreaAtZoom (VInt 2), BoundsAtZoom VNone]
                    self of
               Inl e \<Rightarrow> False
             | Inr s \<Rightarrow>
                 init_zoom_levels (raw s) = Inr [2, 3]
                 \<and> value_of (area_at_zoom sample_environment s VNone)
                     = Inr [[VInt (- 180), VInt (- 90), VInt 180, VInt 90]])"
    by code_simp
  then obtain self s where
    i: "init sample_environment
          (sample_document (VDict [(''min'', VInt 2), (''max'', VInt 3)]) (VInt 2) (VInt 2))
          VNone VNone (VStr ''continue'') = Inr self"
    and p: "perform_all sample_environment [AreaAtZoom (VInt 2), BoundsAtZoom VNone] self
          = Inr s"
    and z: "init_zoom_levels (raw s) = Inr [2, 3]"
    and v: "value_of (area_at_zoom sample_environment s VNone)
          = Inr [[VInt (- 180), VInt (- 90), VInt 180, VInt 90]]"
    by (auto split: sum.splits)
  from full_area_is_union_of_zoom_areas [OF i p z] i p z v show ?thesis by blast
qed

section \<open>Properties of flattening and unflattening\<close>

lemma split_slash_no_slash: "CHR ''/'' \<notin> set k \<Longrightarrow> split_slash k = [k]"
  by (induction k) auto

lemma split_slash_segment:
  "CHR ''/'' \<notin> set a \<Longrightarrow> split_slash (a @ CHR ''/'' # b) = a # split_slash b"
  by (induction a) auto

lemma keys_notin_conv: "k \<notin> fst ` set d \<longleftrightarrow> \<not> has_key d k"
  by (simp add: has_key_def)

lemma dict_set_new: "\<not> has_key d k \<Longrightarrow> dict_set d k v = d @ [(k, v)]"
  by (induction d) (auto simp: has_key_def)

lemma dict_set_last: "\<not> has_key d k \<Longrightarrow> dict_set (d @ [(k, x)]) k v = d @ [(k, v)]"
  by (induction d) (auto simp: has_key_def)

lemma map_of_last: "\<not> has_key d k \<Longrightarrow> map_of (d @ [(k, x)]) k = Some x"
  by (induction d) (auto simp: has_key_def)

lemma has_key_last: "has_key (d @ [(k, x)]) k"
  by (simp add: has_key_def)

lemma has_key_append: "has_key (d @ e) k \<longleftrightarrow> has_key d k \<or> has_key e k"
  by (auto simp: has_key_def)

lemma has_key_Cons: "has_key ((k', x) # d) k \<longleftrightarrow> k' = k \<or> has_key d k"
  by (auto simp: has_key_def)

lemma has_key_Nil: "\<not> has_key [] k"
  by (simp add: has_key_def)

lemma unflatten_one:
  "CHR ''/'' \<notin> set k \<Longrightarrow>
   unflatten_into tree ((k, v) # flat) = unflatten_into (dict_set tree k v) flat"
  by (simp add: split_slash_no_slash)

lemma unflatten_into_Nil: "unflatten_into tree [] = Inr tree"
  by simp

declare unflatten_into.simps [simp del]

lemma unflatten_two:
  assumes "CHR ''/'' \<notin> set k1" "CHR ''/'' \<notin> set k2"
  shows "unflatten_into tree ((k1 @ CHR ''/'' # k2, v) # flat) =
           (case merge_branch tree [k1, k2] [(k2, v)] of
              Inl e \<Rightarrow> Inl e | Inr tree' \<Rightarrow> unflatten_into tree' flat)"
proof -
  have s: "split_slash (k1 @ CHR ''/'' # k2) = [k1, k2]"
    using assms by (simp add: split_slash_segment split_slash_no_slash)
  have b: "unflatten_into [] [(k2, v)] = Inr [(k2, v)]"
    using assms(2) by (simp add: unflatten_one unflatten_into_Nil)
  show ?thesis
    by (subst unflatten_into.simps) (simp add: s b Let_def)
qed

lemma merge_branch_first:
  "\<not> has_key acc k1 \<Longrightarrow>
   merge_branch acc (k1 # k2 # ks) branch = Inr (acc @ [(k1, VDict branch)])"
  by (simp add: merge_branch_def dict_set_new)

lemma merge_branch_second:
  assumes "\<not> has_key acc k1" "\<not> has_key sub k2"
  shows "merge_branch (acc @ [(k1, VDict sub)]) (k1 # k2 # ks) [(k2, b)] =
           Inr (acc @ [(k1, VDict (sub @ [(k2, b)]))])"
  using assms
  by (simp add: merge_branch_def has_key_last map_of_last dict_set_last dict_set_new
      del: map_of_append)

lemma merge_branch_third:
  assumes "\<not> has_key acc k1" "\<not> has_key sub k2" "\<not> has_key t k3"
  shows "merge_branch (acc @ [(k1, VDict (sub @ [(k2, VDict t)]))]) (k1 # k2 # ks)
           [(k2, VDict [(k3, v)])] =
           Inr (acc @ [(k1, VDict (sub @ [(k2, VDict (t @ [(k3, v)]))]))])"
  using assms
  by (simp add: merge_branch_def has_key_last map_of_last dict_set_last dict_set_new
      update_with_def dict_update_def del: map_of_append)

lemma unflatten_three:
  assumes "CHR ''/'' \<notin> set k1" "CHR ''/'' \<notin> set k2" "CHR ''/'' \<notin> set k3"
  shows "unflatten_into tree ((k1 @ CHR ''/'' # k2 @ CHR ''/'' # k3, v) # flat) =
           (case merge_branch tree [k1, k2, k3] [(k2, VDict [(k3, v)])] of
              Inl e \<Rightarrow> Inl e | Inr tree' \<Rightarrow> unflatten_into tree' flat)"
proof -
  have s: "split_slash (k1 @ CHR ''/'' # k2 @ CHR ''/'' # k3) = [k1, k2, k3]"
    using assms by (simp add: split_slash_segment split_slash_no_slash)
  have b: "unflatten_into [] [(k2 @ CHR ''/'' # k3, v)] = Inr [(k2, VDict [(k3, v)])]"
    using assms(2,3) merge_branch_first [of "[]" k2 k3 "[]" "[(k3, v)]"]
    by (simp add: unflatten_two has_key_Nil unflatten_into_Nil)
  show ?thesis
    by (subst unflatten_into.simps) (simp add: s b Let_def)
qed


lemma flatten_leaf_None:
  "is_leaf v \<Longrightarrow> flatten_tree ((k, v) # t) None = (k, v) # flatten_tree t None"
  by (cases v) (simp_all add: is_leaf_def)

lemma flatten_leaf_Some:
  "is_leaf v \<Longrightarrow> p \<noteq> [] \<Longrightarrow>
   flatten_tree ((k, v) # t) (Some p) = (p @ CHR ''/'' # k, v) # flatten_tree t (Some p)"
  by (cases v) (simp_all add: is_leaf_def)

lemma flatten_group_None:
  "\<not> is_leaf (VDict d) \<Longrightarrow>
   flatten_tree ((k, VDict d) # t) None = flatten_tree d (Some k) @ flatten_tree t None"
  by (simp add: is_leaf_def)

lemma flatten_group_Some:
  "\<not> is_leaf (VDict d) \<Longrightarrow> p \<noteq> [] \<Longrightarrow>
   flatten_tree ((k, VDict d) # t) (Some p) =
     flatten_tree d (Some (p @ CHR ''/'' # k)) @ flatten_tree t (Some p)"
  by (simp add: is_leaf_def)

lemma not_leaf_cases:
  assumes "\<not> is_leaf v"
  obtains d where "v = VDict d" "\<not> has_key d ''format''"
  using assms by (cases v) (auto simp: is_leaf_def)

lemma unflatten_third_level:
  assumes k: "CHR ''/'' \<notin> set k1" "CHR ''/'' \<notin> set k2"
    and n: "\<not> has_key acc k1" "\<not> has_key sub k2"
  shows "tree_ok 0 items \<Longrightarrow> \<forall>k \<in> fst ` set items. \<not> has_key t k \<Longrightarrow>
     unflatten_into (acc @ [(k1, VDict (sub @ [(k2, VDict t)]))])
       (flatten_tree items (Some (k1 @ CHR ''/'' # k2)) @ rest)
     = unflatten_into (acc @ [(k1, VDict (sub @ [(k2, VDict (t @ items))]))]) rest"
proof (induction items arbitrary: t)
  case Nil
  show ?case by simp
next
  case (Cons kv items)
  obtain k3 v where kv: "kv = (k3, v)" by (cases kv)
  from Cons.prems(1) kv have ok: "CHR ''/'' \<notin> set k3" "is_leaf v" "tree_ok 0 items"
    and new: "k3 \<notin> fst ` set items"
    by auto
  have nt: "\<not> has_key t k3" using Cons.prems(2) kv by simp
  have fl: "flatten_tree (kv # items) (Some (k1 @ CHR ''/'' # k2)) =
      (k1 @ CHR ''/'' # k2 @ CHR ''/'' # k3, v) # flatten_tree items (Some (k1 @ CHR ''/'' # k2))"
    unfolding kv using flatten_leaf_Some [OF ok(2), of "k1 @ CHR ''/'' # k2" k3 items] by simp
  have rest: "\<forall>k \<in> fst ` set items. \<not> has_key (t @ [(k3, v)]) k"
    using Cons.prems(2) new kv by (auto simp: has_key_append has_key_Cons has_key_Nil)
  show ?case
    unfolding fl
    using Cons.IH [OF ok(3) rest] merge_branch_third [OF n nt, of "[k3]" v]
    by (simp add: unflatten_three [OF k ok(1)] kv)
qed

lemma unflatten_third_group:
  assumes k: "CHR ''/'' \<notin> set k1" "CHR ''/'' \<notin> set k2"
    and n: "\<not> has_key acc k1" "\<not> has_key sub k2"
    and d: "tree_ok 0 d" "d \<noteq> []"
  shows "unflatten_into (acc @ [(k1, VDict sub)])
           (flatten_tree d (Some (k1 @ CHR ''/'' # k2)) @ rest)
         = unflatten_into (acc @ [(k1, VDict (sub @ [(k2, VDict d)]))]) rest"
proof -
  from d(2) obtain k3 v items where e: "d = (k3, v) # items" by (cases d) auto
  from d(1) e have ok: "CHR ''/'' \<notin> set k3" "is_leaf v" "tree_ok 0 items"
    and new: "k3 \<notin> fst ` set items"
    by auto
  have fl: "flatten_tree d (Some (k1 @ CHR ''/'' # k2)) =
      (k1 @ CHR ''/'' # k2 @ CHR ''/'' # k3, v) # flatten_tree items (Some (k1 @ CHR ''/'' # k2))"
    unfolding e using flatten_leaf_Some [OF ok(2), of "k1 @ CHR ''/'' # k2" k3 items] by simp
  have rest: "\<forall>k \<in> fst ` set items. \<not> has_key [(k3, v)] k"
    using new by (auto simp: has_key_Cons has_key_Nil)
  show ?thesis
    unfolding fl
    using unflatten_third_level [OF k n ok(3) rest, of rest]
      merge_branch_second [OF n, of "[k3]" "VDict [(k3, v)]"]
    by (simp add: unflatten_three [OF k ok(1)] e)
qed

lemma unflatten_third_group_first:
  assumes k: "CHR ''/'' \<notin> set k1" "CHR ''/'' \<notin> set k2"
    and n: "\<not> has_key acc k1"
    and d: "tree_ok 0 d" "d \<noteq> []"
  shows "unflatten_into acc (flatten_tree d (Some (k1 @ CHR ''/'' # k2)) @ rest)
         = unflatten_into (acc @ [(k1, VDict [(k2, VDict d)])]) rest"
proof -
  from d(2) obtain k3 v items where e: "d = (k3, v) # items" by (cases d) auto
  from d(1) e have ok: "CHR ''/'' \<notin> set k3" "is_leaf v" "tree_ok 0 items"
    and new: "k3 \<notin> fst ` set items"
    by auto
  have fl: "flatten_tree d (Some (k1 @ CHR ''/'' # k2)) =
      (k1 @ CHR ''/'' # k2 @ CHR ''/'' # k3, v) # flatten_tree items (Some (k1 @ CHR ''/'' # k2))"
    unfolding e using flatten_leaf_Some [OF ok(2), of "k1 @ CHR ''/'' # k2" k3 items] by simp
  have rest: "\<forall>k \<in> fst ` set items. \<not> has_key [(k3, v)] k"
    using new by (auto simp: has_key_Cons has_key_Nil)
  have e2: "\<not> has_key [] k2" by (rule has_key_Nil)
  show ?thesis
    unfolding fl
    using unflatten_third_level [OF k n e2 ok(3) rest, of rest]
      merge_branch_first [OF n, of k2 "[k3]" "[(k2, VDict [(k3, v)])]"]
    by (simp add: unflatten_three [OF k ok(1)] e)
qed

lemma unflatten_second_level:
  assumes k: "CHR ''/'' \<notin> set k1" "k1 \<noteq> []" and n: "\<not> has_key acc k1"
  shows "tree_ok 1 d \<Longrightarrow> \<forall>k \<in> fst ` set d. \<not> has_key sub k \<Longrightarrow>
     unflatten_into (acc @ [(k1, VDict sub)]) (flatten_tree d (Some k1) @ rest)
     = unflatten_into (acc @ [(k1, VDict (sub @ d))]) rest"
proof (induction d arbitrary: sub)
  case Nil
  show ?case by simp
next
  case (Cons kv d)
  obtain k2 v where kv: "kv = (k2, v)" by (cases kv)
  from Cons.prems(1) kv have ok: "CHR ''/'' \<notin> set k2" "tree_ok 1 d"
    and new: "k2 \<notin> fst ` set d"
    and v: "is_leaf v \<or> (\<exists>g. v = VDict g \<and> g \<noteq> [] \<and> tree_ok 0 g)"
    by (auto split: val.splits)
  have ns: "\<not> has_key sub k2" using Cons.prems(2) kv by simp
  have rest: "\<forall>k \<in> fst ` set d. \<not> has_key (sub @ [(k2, v)]) k"
    using Cons.prems(2) new kv by (auto simp: has_key_append has_key_Cons has_key_Nil)
  note ih = Cons.IH [OF ok(2) rest]
  show ?case
  proof (cases "is_leaf v")
    case True
    have fl: "flatten_tree (kv # d) (Some k1) =
        (k1 @ CHR ''/'' # k2, v) # flatten_tree d (Some k1)"
      unfolding kv using flatten_leaf_Some [OF True k(2)] by simp
    show ?thesis
      unfolding fl
      using ih merge_branch_second [OF n ns, of "[]" v]
      by (simp add: unflatten_two [OF k(1) ok(1)] kv)
  next
    case False
    with v obtain g where g: "v = VDict g" "g \<noteq> []" "tree_ok 0 g" by blast
    have fl: "flatten_tree (kv # d) (Some k1) =
        flatten_tree g (Some (k1 @ CHR ''/'' # k2)) @ flatten_tree d (Some k1)"
      unfolding kv g(1) using flatten_group_Some [OF False [unfolded g(1)] k(2)] by simp
    show ?thesis
      unfolding fl
      using ih unflatten_third_group [OF k(1) ok(1) n ns g(3,2),
          of "flatten_tree d (Some k1) @ rest"]
      by (simp add: kv g(1))
  qed
qed

lemma unflatten_second_group:
  assumes k: "CHR ''/'' \<notin> set k1" "k1 \<noteq> []" and n: "\<not> has_key acc k1"
    and d: "tree_ok 1 d" "d \<noteq> []"
  shows "unflatten_into acc (flatten_tree d (Some k1) @ rest)
         = unflatten_into (acc @ [(k1, VDict d)]) rest"
proof -
  from d(2) obtain k2 v items where e: "d = (k2, v) # items" by (cases d) auto
  from d(1) e have ok: "CHR ''/'' \<notin> set k2" "tree_ok 1 items"
    and new: "k2 \<notin> fst ` set items"
    and v: "is_leaf v \<or> (\<exists>g. v = VDict g \<and> g \<noteq> [] \<and> tree_ok 0 g)"
    by (auto split: val.splits)
  have rest: "\<forall>k \<in> fst ` set items. \<not> has_key [(k2, v)] k"
    using new by (auto simp: has_key_Cons has_key_Nil)
  note l2 = unflatten_second_level [OF k n ok(2) rest, of rest]
  show ?thesis
  proof (cases "is_leaf v")
    case True
    have fl: "flatten_tree d (Some k1) =
        (k1 @ CHR ''/'' # k2, v) # flatten_tree items (Some k1)"
      unfolding e using flatten_leaf_Some [OF True k(2)] by simp
    show ?thesis
      unfolding fl
      using l2 merge_branch_first [OF n, of k2 "[]" "[(k2, v)]"]
      by (simp add: unflatten_two [OF k(1) ok(1)] e)
  next
    case False
    with v obtain g where g: "v = VDict g" "g \<noteq> []" "tree_ok 0 g" by blast
    have fl: "flatten_tree d (Some k1) =
        flatten_tree g (Some (k1 @ CHR ''/'' # k2)) @ flatten_tree items (Some k1)"
      unfolding e g(1) using flatten_group_Some [OF False [unfolded g(1)] k(2)] by simp
    show ?thesis
      unfolding fl
      using l2 unflatten_third_group_first [OF k(1) ok(1) n g(3,2),
          of "flatten_tree items (Some k1) @ rest"]
      by (simp add: e g(1))
  qed
qed

lemma tree_ok_Suc_Cons:
  "tree_ok (Suc n) ((k, v) # t) \<longleftrightarrow>
     CHR ''/'' \<notin> set k \<and> k \<notin> fst ` set t
     \<and> (is_leaf v \<or> (\<exists>g. v = VDict g \<and> g \<noteq> [] \<and> tree_ok n g))
     \<and> tree_ok (Suc n) t"
  by (cases v) auto

lemma unflatten_first_level:
  "tree_ok 2 t \<Longrightarrow> list_all (\<lambda>(k, v). is_leaf v \<or> k \<noteq> []) t \<Longrightarrow>
   \<forall>k \<in> fst ` set t. \<not> has_key acc k \<Longrightarrow>
   unflatten_into acc (flatten_tree t None @ rest) = unflatten_into (acc @ t) rest"
proof (induction t arbitrary: acc)
  case Nil
  show ?case by simp
next
  case (Cons kv t)
  obtain k1 v where kv: "kv = (k1, v)" by (cases kv)
  have two: "(2 :: nat) = Suc 1" by simp
  from Cons.prems(1) have ok: "CHR ''/'' \<notin> set k1" "tree_ok 2 t"
    and new: "k1 \<notin> fst ` set t"
    and v: "is_leaf v \<or> (\<exists>g. v = VDict g \<and> g \<noteq> [] \<and> tree_ok 1 g)"
    unfolding two kv tree_ok_Suc_Cons by blast+
  have ne: "is_leaf v \<or> k1 \<noteq> []" and la: "list_all (\<lambda>(k, v). is_leaf v \<or> k \<noteq> []) t"
    using Cons.prems(2) kv by auto
  have n: "\<not> has_key acc k1" using Cons.prems(3) kv by simp
  have rest: "\<forall>k \<in> fst ` set t. \<not> has_key (acc @ [(k1, v)]) k"
    using Cons.prems(3) new kv by (auto simp: has_key_append has_key_Cons has_key_Nil)
  note ih = Cons.IH [OF ok(2) la rest]
  show ?case
  proof (cases "is_leaf v")
    case True
    have fl: "flatten_tree (kv # t) None = (k1, v) # flatten_tree t None"
      unfolding kv by (rule flatten_leaf_None [OF True])
    show ?thesis
      unfolding fl
      using ih by (simp add: kv unflatten_one [OF ok(1)] dict_set_new [OF n])
  next
    case False
    with v ne obtain g where g: "v = VDict g" "g \<noteq> []" "tree_ok 1 g" and k: "k1 \<noteq> []"
      by blast
    have fl: "flatten_tree (kv # t) None = flatten_tree g (Some k1) @ flatten_tree t None"
      unfolding kv g(1) by (rule flatten_group_None [OF False [unfolded g(1)]])
    show ?thesis
      unfolding fl
      using ih unflatten_second_group [OF ok(1) k n g(3,2), of "flatten_tree t None @ rest"]
      by (simp add: kv g(1))
  qed
qed

lemma unflatten_flatten:
  assumes "round_trip_ok t"
  shows "unflatten_tree (flatten_tree t None) = Inr t"
  using assms unflatten_first_level [of t "[]" "[]"]
  by (simp add: round_trip_ok_def unflatten_tree_def has_key_Nil unflatten_into_Nil)


lemma takeWhile_segment:
  "CHR ''/'' \<notin> set a \<Longrightarrow> s = [] \<or> hd s = CHR ''/'' \<Longrightarrow>
   takeWhile (\<lambda>c. c \<noteq> CHR ''/'') (a @ s) = a"
  by (induction a; cases s; auto)

lemma segment_unique:
  assumes "CHR ''/'' \<notin> set a" "CHR ''/'' \<notin> set b"
    and "s = [] \<or> hd s = CHR ''/''" "t = [] \<or> hd t = CHR ''/''"
    and "a @ s = b @ t"
  shows "a = b"
  using takeWhile_segment [OF assms(1,3)] takeWhile_segment [OF assms(2,4)] assms(5) by simp

lemma flatten_item:
  "flatten_tree ((k, v) # t) old =
     (if is_leaf v then [(path_prefix old @ k, v)]
      else (case v of VDict g \<Rightarrow> flatten_tree g (Some (path_prefix old @ k)) | _ \<Rightarrow> []))
     @ flatten_tree t old"
  by (cases v; cases old) (simp_all add: is_leaf_def path_prefix_def)

lemma tree_ok_Cons:
  "tree_ok n ((k, v) # t) \<Longrightarrow>
     CHR ''/'' \<notin> set k \<and> k \<notin> fst ` set t \<and> tree_ok n t
     \<and> (is_leaf v \<or> (\<exists>m g. n = Suc m \<and> v = VDict g \<and> g \<noteq> [] \<and> tree_ok m g))"
  by (cases n; cases v) auto

lemma flatten_paths:
  "tree_ok n d \<Longrightarrow> old \<noteq> Some [] \<Longrightarrow>
   (old = None \<longrightarrow> list_all (\<lambda>(k, v). is_leaf v \<or> k \<noteq> []) d) \<Longrightarrow>
   x \<in> fst ` set (flatten_tree d old) \<Longrightarrow>
   \<exists>k s. k \<in> fst ` set d \<and> x = path_prefix old @ k @ s \<and> (s = [] \<or> hd s = CHR ''/'')"
proof (induction n arbitrary: d old x)
  case 0
  then show ?case
  proof (induction d)
    case Nil
    then show ?case by simp
  next
    case (Cons kv d)
    obtain k v where kv: "kv = (k, v)" by (cases kv)
    from Cons.prems(1) kv have l: "is_leaf v" and ok: "tree_ok 0 d" by auto
    from Cons.prems(4) have "x = path_prefix old @ k \<or> x \<in> fst ` set (flatten_tree d old)"
      unfolding kv flatten_item using l by auto
    then show ?case
    proof
      assume "x = path_prefix old @ k"
      then show ?thesis unfolding kv by (intro exI [of _ k] exI [of _ "[]"]) simp
    next
      assume "x \<in> fst ` set (flatten_tree d old)"
      then show ?thesis using Cons.IH [OF ok Cons.prems(2)] Cons.prems(3) by auto
    qed
  qed
next
  case (Suc n)
  note outer = Suc.IH
  from Suc.prems show ?case
  proof (induction d)
    case Nil
    then show ?case by simp
  next
    case (Cons kv d)
    obtain k v where kv: "kv = (k, v)" by (cases kv)
    from tree_ok_Cons [OF Cons.prems(1) [unfolded kv]]
    have ok: "tree_ok (Suc n) d"
      and v: "is_leaf v \<or> (\<exists>g. v = VDict g \<and> g \<noteq> [] \<and> tree_ok n g)" by auto
    have rest: "old = None \<longrightarrow> list_all (\<lambda>(k, v). is_leaf v \<or> k \<noteq> []) d"
      and ne: "old = None \<longrightarrow> is_leaf v \<or> k \<noteq> []"
      using Cons.prems(3) kv by auto
    show ?case
    proof (cases "x \<in> fst ` set (flatten_tree d old)")
      case True
      then show ?thesis using Cons.IH [OF ok Cons.prems(2) rest] by auto
    next
      case False
      show ?thesis
      proof (cases "is_leaf v")
        case True
        with False Cons.prems(4) have "x = path_prefix old @ k"
          unfolding kv flatten_item by auto
        then show ?thesis unfolding kv by (intro exI [of _ k] exI [of _ "[]"]) simp
      next
        case leaf: False
        with v obtain g where g: "v = VDict g" "tree_ok n g" by blast
        have p: "path_prefix old @ k \<noteq> []"
          using ne leaf Cons.prems(2) by (cases old) (auto simp: path_prefix_def)
        have x: "x \<in> fst ` set (flatten_tree g (Some (path_prefix old @ k)))"
          using False Cons.prems(4) leaf unfolding kv flatten_item g(1) by auto
        from outer [OF g(2) _ _ x] p obtain k' s where
          "x = path_prefix (Some (path_prefix old @ k)) @ k' @ s" by auto
        then have "x = path_prefix old @ k @ (CHR ''/'' # k' @ s)"
          using p by (simp add: path_prefix_def)
        then show ?thesis unfolding kv
          by (intro exI [of _ k] exI [of _ "CHR ''/'' # k' @ s"]) simp
      qed
    qed
  qed
qed

lemma flatten_distinct:
  "tree_ok n d \<Longrightarrow> old \<noteq> Some [] \<Longrightarrow>
   (old = None \<longrightarrow> list_all (\<lambda>(k, v). is_leaf v \<or> k \<noteq> []) d) \<Longrightarrow>
   distinct (map fst (flatten_tree d old))"
proof (induction n arbitrary: d old)
  case 0
  then show ?case
  proof (induction d)
    case Nil
    then show ?case by simp
  next
    case (Cons kv d)
    obtain k v where kv: "kv = (k, v)" by (cases kv)
    from tree_ok_Cons [OF Cons.prems(1) [unfolded kv]]
    have l: "is_leaf v" and ok: "tree_ok 0 d" and k: "CHR ''/'' \<notin> set k" "k \<notin> fst ` set d"
      by auto
    have rest: "old = None \<longrightarrow> list_all (\<lambda>(k, v). is_leaf v \<or> k \<noteq> []) d"
      using Cons.prems(3) by auto
    have "path_prefix old @ k \<notin> fst ` set (flatten_tree d old)"
    proof
      assume "path_prefix old @ k \<in> fst ` set (flatten_tree d old)"
      from flatten_paths [OF ok Cons.prems(2) rest this] obtain k' s where
        k': "k' \<in> fst ` set d" and e: "k @ [] = k' @ s" and s: "s = [] \<or> hd s = CHR ''/''"
        by auto
      have "CHR ''/'' \<notin> set k'" using ok k' by (auto simp: list_all_iff)
      from segment_unique [OF k(1) this _ s e] have "k = k'" by simp
      with k' k(2) show False by simp
    qed
    then show ?case
      unfolding kv flatten_item using l Cons.IH [OF ok Cons.prems(2) rest] by simp
  qed
next
  case (Suc n)
  note outer = Suc.IH
  from Suc.prems show ?case
  proof (induction d)
    case Nil
    then show ?case by simp
  next
    case (Cons kv d)
    obtain k v where kv: "kv = (k, v)" by (cases kv)
    from tree_ok_Cons [OF Cons.prems(1) [unfolded kv]]
    have ok: "tree_ok (Suc n) d" and k: "CHR ''/'' \<notin> set k" "k \<notin> fst ` set d"
      and v: "is_leaf v \<or> (\<exists>g. v = VDict g \<and> g \<noteq> [] \<and> tree_ok n g)" by auto
    have rest: "old = None \<longrightarrow> list_all (\<lambda>(k, v). is_leaf v \<or> k \<noteq> []) d"
      and ne: "old = None \<longrightarrow> is_leaf v \<or> k \<noteq> []"
      using Cons.prems(3) kv by auto
    have sl: "CHR ''/'' \<notin> set k'" if "k' \<in> fst ` set d" for k'
      using ok that by (auto simp: list_all_iff)
    have apart: "path_prefix old @ k @ s \<notin> fst ` set (flatten_tree d old)"
      if s: "s = [] \<or> hd s = CHR ''/''" for s
    proof
      assume "path_prefix old @ k @ s \<in> fst ` set (flatten_tree d old)"
      from flatten_paths [OF ok Cons.prems(2) rest this] obtain k' t where
        k': "k' \<in> fst ` set d" and e: "k @ s = k' @ t" and t: "t = [] \<or> hd t = CHR ''/''"
        by auto
      from segment_unique [OF k(1) sl [OF k'] s t e] have "k = k'" .
      with k' k(2) show False by simp
    qed
    note ih = Cons.IH [OF ok Cons.prems(2) rest]
    show ?case
    proof (cases "is_leaf v")
      case True
      then show ?thesis unfolding kv flatten_item using ih apart [of "[]"] by simp
    next
      case leaf: False
      with v obtain g where g: "v = VDict g" "tree_ok n g" by blast
      have p: "path_prefix old @ k \<noteq> []"
        using ne leaf Cons.prems(2) by (cases old) (auto simp: path_prefix_def)
      have dg: "distinct (map fst (flatten_tree g (Some (path_prefix old @ k))))"
        using outer [OF g(2), of "Some (path_prefix old @ k)"] p by simp
      have "x \<notin> fst ` set (flatten_tree d old)"
        if x: "x \<in> fst ` set (flatten_tree g (Some (path_prefix old @ k)))" for x
      proof -
        from flatten_paths [OF g(2) _ _ x] p obtain k' s where
          "x = path_prefix (Some (path_prefix old @ k)) @ k' @ s" by auto
        then have "x = path_prefix old @ k @ (CHR ''/'' # k' @ s)"
          using p by (simp add: path_prefix_def)
        then show ?thesis using apart [of "CHR ''/'' # k' @ s"] by simp
      qed
      then show ?thesis
        unfolding kv flatten_item g(1) using leaf [unfolded g(1)] ih dg by auto
    qed
  qed
qed

lemma py_dict_distinct:
  "distinct (map fst xs) \<Longrightarrow> py_dict xs = xs"
proof -
  have "distinct (map fst xs) \<Longrightarrow> \<forall>k \<in> fst ` set xs. \<not> has_key acc k \<Longrightarrow>
      fold (\<lambda>(k, v) acc. dict_set acc k v) xs acc = acc @ xs" for acc
  proof (induction xs arbitrary: acc)
    case Nil
    show ?case by simp
  next
    case (Cons kv xs)
    obtain k v where kv: "kv = (k, v)" by (cases kv)
    have n: "\<not> has_key acc k" using Cons.prems(2) kv by simp
    have "\<forall>k' \<in> fst ` set xs. \<not> has_key (acc @ [(k, v)]) k'"
      using Cons.prems kv by (auto simp: has_key_append has_key_Cons has_key_Nil)
    then show ?case
      using Cons.IH [of "acc @ [(k, v)]"] Cons.prems(1) by (simp add: kv dict_set_new [OF n])
  qed
  from this [of "[]"] show "distinct (map fst xs) \<Longrightarrow> py_dict xs = xs"
    by (simp add: py_dict_def dict_update_def has_key_Nil)
qed

text \<open>
  Claim C1, as the code has it. For a tree without a key twice, whose keys have no \<^verbatim>\<open>/\<close>,
  in which no group is empty, no group of the first level has the empty key and no path
  has more than three segments, unflattening the flattened tree returns the tree, with
  its items in their order.
\<close>

theorem unflatten_flatten_round_trip:
  assumes "round_trip_ok t"
  shows "unflatten_tree (py_dict (flatten_tree t None)) = Inr t"
proof -
  have "distinct (map fst (flatten_tree t None))"
    using assms flatten_distinct [of 2 t None] by (simp add: round_trip_ok_def)
  then show ?thesis using unflatten_flatten [OF assms] by (simp add: py_dict_distinct)
qed

theorem unflatten_flatten_round_trip_witness:
  "round_trip_ok
     [(''dem'', VStr ''dem.tif''),
      (''land'', VDict [(''water'', VDict [(''format'', VStr ''shp''), (''path'', VStr ''w/x'')]),
                        (''use'', VDict [(''a'', VStr ''a.tif''), (''b'', VNone)])]),
      ([], VInt 3)]
   \<and> unflatten_tree (py_dict (flatten_tree
         [(''dem'', VStr ''dem.tif''),
          (''land'', VDict [(''water'', VDict [(''format'', VStr ''shp''), (''path'', VStr ''w/x'')]),
                            (''use'', VDict [(''a'', VStr ''a.tif''), (''b'', VNone)])]),
          ([], VInt 3)] None))
     = Inr [(''dem'', VStr ''dem.tif''),
            (''land'', VDict [(''water'', VDict [(''format'', VStr ''shp''), (''path'', VStr ''w/x'')]),
                              (''use'', VDict [(''a'', VStr ''a.tif''), (''b'', VNone)])]),
            ([], VInt 3)]"
proof -
  have ok: "round_trip_ok
     [(''dem'', VStr ''dem.tif''),
      (''land'', VDict [(''water'', VDict [(''format'', VStr ''shp''), (''path'', VStr ''w/x'')]),
                        (''use'', VDict [(''a'', VStr ''a.tif''), (''b'', VNone)])]),
      ([], VInt 3)]"
    by code_simp
  from unflatten_flatten_round_trip [OF ok] ok show ?thesis by simp
qed

text \<open>
  Claim C1 as stated fails on trees it admits: an empty group leaves nothing in the
  flattened tree, and a key with a \<^verbatim>\<open>/\<close> in it comes back as two levels.
\<close>

theorem round_trip_counterexample:
  "unflatten_tree (py_dict (flatten_tree [(''a'', VDict [])] None)) = Inr []
   \<and> \<not> py_eq (VDict []) (VDict [(''a'', VDict [])])
   \<and> unflatten_tree (py_dict (flatten_tree [(''a/b'', VInt 1)] None))
     = Inr [(''a'', VDict [(''b'', VInt 1)])]
   \<and> \<not> py_eq (VDict [(''a'', VDict [(''b'', VInt 1)])]) (VDict [(''a/b'', VInt 1)])"
  by code_simp

text \<open>
  Beyond three segments the merge of \<^verbatim>\<open>_unflatten_tree\<close> is a \<^verbatim>\<open>dict.update\<close> on the second
  level, which replaces the dictionary under the third segment: of two leaves with the
  same first three segments only the last one stays.
\<close>

lemma unflatten_loses_siblings_at_depth_four:
  "unflatten_tree (py_dict (flatten_tree
     [(''a'', VDict [(''b'', VDict [(''c'', VDict [(''d'', VInt 1), (''e'', VInt 2)])])])] None))
   = Inr [(''a'', VDict [(''b'', VDict [(''c'', VDict [(''e'', VInt 2)])])])]"
  by code_simp

section \<open>The snapshot of the inputs\<close>

text \<open>
  Claim C2 on an input tree that is four levels deep. The two paths \<^verbatim>\<open>a/b/c/d\<close> and
  \<^verbatim>\<open>a/b/c/e\<close> are bound to the same file; the registry holds one reader for it (object 0)
  and one for the other file, but the snapshot of \<^verbatim>\<open>params_at_zoom\<close> has the reader under
  \<^verbatim>\<open>a/b/c/e\<close> only: the path \<^verbatim>\<open>a/b/c/d\<close> is gone.
\<close>

theorem snapshot_loses_path_of_deep_tree:
  "case init sample_environment deep_document VNone VNone (VStr ''continue'') of
     Inl e \<Rightarrow> False
   | Inr self \<Rightarrow>
       map_option (\<lambda>params. map_option (\<lambda>i. case i of VDict tree \<Rightarrow> flatten_tree tree None | _ \<Rightarrow> [])
                               (map_of params ''input''))
         (map_of (params_per_zoom self) 1)
         = Some (Some [(''a/b/c/d'', VStr ''f.tif''), (''a/b/c/e'', VStr ''f.tif''),
                       (''a/b/c2'', VStr ''g.tif''), (''a/b2'', VStr ''g.tif'')])
       \<and> map_option (map (\<lambda>(k, r). fst r)) (input_cache self) = Some [0, 1]
       \<and> (case params_at_zoom sample_environment self 1 of
             Inl e \<Rightarrow> False
           | Inr (snapshot, self') \<Rightarrow>
               map_of snapshot ''input''
                 = Some (VDict [(''a'', VDict [(''b'', VDict [(''c'', VDict [(''e'', VObj 0)]),
                                                              (''c2'', VObj 1)]),
                                               (''b2'', VObj 1)])]))"
  by code_simp

end
